theory Spec2Isabelle
  imports Main
begin

section \<open>JavaScript values the handlers inspect\<close>

text \<open>
  Strings are lists of 8-bit characters, read as the code units 0 to 255.
  \<^verbatim>\<open>String.prototype.trim\<close> strips white space and line terminators from both ends;
  among these code units they are tab, line feed, vertical tab, form feed, carriage
  return, space and the no-break space U+00A0 (the other white space of ECMAScript lies
  above 255 and cannot occur in such a string).
\<close>

definition is_ws :: "char \<Rightarrow> bool" where
  "is_ws c = (c \<in> set [CHR 0x09, CHR 0x0A, CHR 0x0B, CHR 0x0C, CHR 0x0D, CHR 0x20, CHR 0xA0])"

definition trim :: "string \<Rightarrow> string" where
  "trim s = rev (dropWhile is_ws (rev (dropWhile is_ws s)))"

text \<open>
  Truthiness of a \<^verbatim>\<open>string | null\<close> value: \<^verbatim>\<open>null\<close>, \<^verbatim>\<open>undefined\<close> and the
  empty string are falsy. \<open>js_or v d\<close> is \<^verbatim>\<open>v || d\<close>, and \<open>js_str v\<close> is what a
  template literal prints for an optional string.
\<close>

definition truthy :: "string option \<Rightarrow> bool" where
  "truthy v = (case v of None \<Rightarrow> False | Some s \<Rightarrow> s \<noteq> [])"

definition js_or :: "string option \<Rightarrow> string \<Rightarrow> string" where
  "js_or v d = (case v of None \<Rightarrow> d | Some s \<Rightarrow> if s = [] then d else s)"

definition js_str :: "string option \<Rightarrow> string" where
  "js_str v = (case v of None \<Rightarrow> ''undefined'' | Some s \<Rightarrow> s)"

text \<open>Decimal rendering of a number in a template literal.\<close>

definition digit :: "nat \<Rightarrow> char" where
  "digit d = (if d = 0 then CHR ''0'' else if d = 1 then CHR ''1'' else if d = 2 then CHR ''2''
     else if d = 3 then CHR ''3'' else if d = 4 then CHR ''4'' else if d = 5 then CHR ''5''
     else if d = 6 then CHR ''6'' else if d = 7 then CHR ''7'' else if d = 8 then CHR ''8''
     else CHR ''9'')"

fun show_nat :: "nat \<Rightarrow> string" where
  "show_nat n = (if n < 10 then [digit n] else show_nat (n div 10) @ [digit (n mod 10)])"

text \<open>
  A value caught by \<^verbatim>\<open>catch (error)\<close>: an \<^verbatim>\<open>Error\<close> instance with its message
  (what \<^verbatim>\<open>new Error(m)\<close>, a rejected \<^verbatim>\<open>fetch\<close> and a rejected
  \<^verbatim>\<open>response.json()\<close> produce), or any other thrown value.
  \<open>message_of e d\<close> is \<^verbatim>\<open>e instanceof Error ? e.message : d\<close>.
\<close>

datatype thrown = JsError string | NotAnError

definition message_of :: "thrown \<Rightarrow> string \<Rightarrow> string" where
  "message_of e d = (case e of JsError m \<Rightarrow> m | NotAnError \<Rightarrow> d)"

text \<open>
  The outcome of \<^verbatim>\<open>await fetch(...)\<close> followed by reading the body: the request is
  rejected (transport failure), or it resolves to a response with its \<^verbatim>\<open>ok\<close> flag
  and a body that \<^verbatim>\<open>response.json()\<close> (or \<^verbatim>\<open>response.blob()\<close>) either rejects
  with an error message or resolves to a value. A JSON object is modelled by the
  string-valued fields the handlers read: an association list from field names to strings,
  an absent field reading as \<^verbatim>\<open>undefined\<close>.
\<close>

datatype 'b body = Unreadable string | Parsed 'b

datatype 'b fetched = Rejected thrown | Resolved bool "'b body"

type_synonym jobj = "(string \<times> string) list"

definition field :: "jobj \<Rightarrow> string \<Rightarrow> string option" where
  "field obj k = map_of obj k"

text \<open>A request as the handlers issue it: method, URL and what the body carries.\<close>

record upfile =
  name :: string
  content :: string

datatype payload = NoBody | JsonBody jobj | FormFile upfile

record request =
  rq_method :: string
  rq_url :: string
  rq_body :: payload

section \<open>Upload page (pages/Upload.tsx)\<close>

record UploadProgress =
  total :: nat
  completed :: nat
  currentFile :: string

datatype variable_type = TString | TArray | TObject

datatype variable_value = Scalar string | Items "string list"

record PromptVariable =
  pv_name :: string
  pv_type :: variable_type
  pv_currentValue :: variable_value

text \<open>
  The state of the \<^verbatim>\<open>Upload\<close> component, one field per \<^verbatim>\<open>useState\<close> (prefixed
  \<open>up_\<close>). A handler is a function from the state it is called in to the state the
  component has once the updates it queued have been applied.
\<close>

record upload =
  up_text :: string
  up_files :: "upfile list option"
  up_message :: string
  up_loading :: bool
  up_isError :: bool
  up_clearLoading :: bool
  up_uploadProgress :: "UploadProgress option"
  up_selectedVariable :: "string option"
  up_variableValue :: string
  up_tags :: "string list"
  up_variableOptions :: "PromptVariable list"
  up_newTagInput :: string
  up_selectedContext :: "string option"
  up_selectedUploadTab :: string

definition Upload_init :: upload where
  "Upload_init = \<lparr>up_text = '''', up_files = None, up_message = '''', up_loading = False,
     up_isError = False, up_clearLoading = False, up_uploadProgress = None,
     up_selectedVariable = None, up_variableValue = '''', up_tags = [],
     up_variableOptions = [], up_newTagInput = '''', up_selectedContext = None,
     up_selectedUploadTab = ''text''\<rparr>"

subsection \<open>The tag edit buffer\<close>

text \<open>
  \<^verbatim>\<open>handleAddTag\<close> (lines 227-232) and the remove button's \<^verbatim>\<open>onClick\<close> (line 288),
  \<^verbatim>\<open>setTags(tags.filter((_, i) => i !== index))\<close>.
\<close>

definition handleAddTag :: "string \<Rightarrow> upload \<Rightarrow> upload" where
  "handleAddTag newTag s =
     (let s1 = (if trim newTag \<noteq> [] \<and> trim newTag \<notin> set (up_tags s)
                then s\<lparr>up_tags := up_tags s @ [trim newTag]\<rparr> else s)
      in s1\<lparr>up_newTagInput := ''''\<rparr>)"

definition removeTag :: "nat \<Rightarrow> upload \<Rightarrow> upload" where
  "removeTag index s =
     s\<lparr>up_tags := map snd (filter (\<lambda>(i, _). i \<noteq> index) (enumerate 0 (up_tags s)))\<rparr>"

text \<open>A sequence of edits of the buffer, as the user's clicks produce them.\<close>

datatype tag_edit = AddTag string | RemoveTag nat

fun apply_tag_edit :: "upload \<Rightarrow> tag_edit \<Rightarrow> upload" where
  "apply_tag_edit s (AddTag t) = handleAddTag t s"
| "apply_tag_edit s (RemoveTag i) = removeTag i s"

definition run_tag_edits :: "tag_edit list \<Rightarrow> upload \<Rightarrow> upload" where
  "run_tag_edits es s = foldl apply_tag_edit s es"

subsection \<open>Sequential file upload\<close>

text \<open>
  \<^verbatim>\<open>handleFileUpload\<close> (lines 164-206). The backend is a function from the position of
  a request in the batch (from 0) to the outcome of that request.

  React does not change the state when a setter is called: it queues the update and
  applies the queue at the next render, which takes place once the handler suspends at an
  \<^verbatim>\<open>await\<close>. Lines 179-185 call \<^verbatim>\<open>setUploadProgress\<close> and then \<^verbatim>\<open>fetch\<close> with no
  \<^verbatim>\<open>await\<close> between them. So for every request the trace records two progress states:
  \<open>sn_at_call\<close>, the state of the component at the moment \<^verbatim>\<open>fetch\<close> is called (the
  queued update not yet applied), and \<open>sn_in_flight\<close>, the state from the render that
  follows, which stays while the request is awaited.

  The loop \<^verbatim>\<open>for (let i = 0; i < files.length; i++)\<close> is \<open>upload_loop\<close>, run on the files
  from index \<open>i\<close> on, with \<open>c\<close> the progress state of the component and \<open>p\<close> the value
  the queued updates give (\<^verbatim>\<open>prev\<close> of the functional update of line 179). It returns
  the value thrown out of the loop (if any), the progress state it leaves and the trace.
\<close>

record sent =
  sn_request :: request
  sn_at_call :: "UploadProgress option"
  sn_in_flight :: "UploadProgress option"

fun upload_loop ::
  "string \<Rightarrow> string \<Rightarrow> (nat \<Rightarrow> jobj fetched) \<Rightarrow> nat \<Rightarrow> nat \<Rightarrow> upfile list \<Rightarrow>
   UploadProgress option \<Rightarrow> UploadProgress option \<Rightarrow>
   thrown option \<times> UploadProgress option \<times> sent list" where
  "upload_loop base ctx srv n i [] c p = (None, p, [])"
| "upload_loop base ctx srv n i (f # fs) c p =
     (let p1 = Some \<lparr>total = (case p of None \<Rightarrow> n
                                 | Some q \<Rightarrow> if total q = 0 then n else total q),
                      completed = i, currentFile = name f\<rparr>;
          rq = \<lparr>sn_request = \<lparr>rq_method = ''POST'',
                                 rq_url = base @ ''/insert_file?context_id='' @ ctx,
                                 rq_body = FormFile f\<rparr>,
                sn_at_call = c, sn_in_flight = p1\<rparr>
      in case srv i of
           Rejected e \<Rightarrow> (Some e, p1, [rq])
         | Resolved ok b \<Rightarrow>
             (case b of
                Unreadable m \<Rightarrow> (Some (JsError m), p1, [rq])
              | Parsed d \<Rightarrow>
                  if ok then
                    (case upload_loop base ctx srv n (Suc i) fs p1 p1 of
                       (r, p2, tr) \<Rightarrow> (r, p2, rq # tr))
                  else
                    (Some (JsError (''Failed to upload '' @ name f @ '': '' @
                                    js_str (field d ''detail''))), p1, [rq])))"

text \<open>
  The handler: when it is called the component's progress state is \<open>up_uploadProgress s\<close>,
  and lines 166-171 queue the first progress value. The state returned is the one after
  the updates of the \<^verbatim>\<open>finally\<close> block have been applied.
\<close>

definition handleFileUpload ::
  "string \<Rightarrow> (nat \<Rightarrow> jobj fetched) \<Rightarrow> upload \<Rightarrow> upload \<times> sent list" where
  "handleFileUpload base srv s =
     (case up_files s of
        None \<Rightarrow> (s, [])
      | Some fl \<Rightarrow>
          (case up_selectedContext s of
             None \<Rightarrow> (s, [])
           | Some ctx \<Rightarrow>
               if fl = [] then (s, [])
               else if ctx = [] then (s, [])
               else
                 (let s1 = s\<lparr>up_loading := True,
                             up_uploadProgress :=
                               Some \<lparr>total = length fl, completed = 0,
                                     currentFile = name (hd fl)\<rparr>\<rparr>
                  in case upload_loop base ctx srv (length fl) 0 fl
                            (up_uploadProgress s) (up_uploadProgress s1) of
                       (r, p, tr) \<Rightarrow>
                         (let s2 = s1\<lparr>up_uploadProgress := p\<rparr>;
                              s3 = (case r of
                                      None \<Rightarrow>
                                        s2\<lparr>up_message := ''Successfully uploaded '' @
                                                           show_nat (length fl) @ '' files'',
                                           up_isError := False, up_files := None\<rparr>
                                    | Some e \<Rightarrow>
                                        s2\<lparr>up_message := message_of e ''Error uploading files'',
                                           up_isError := True\<rparr>)
                          in (s3\<lparr>up_loading := False, up_uploadProgress := None\<rparr>, tr)))))"

text \<open>
  \<open>mentions msg w\<close>: the text \<open>w\<close> occurs in the message \<open>msg\<close>.
\<close>

fun starts_with :: "string \<Rightarrow> string \<Rightarrow> bool" where
  "starts_with s [] = True"
| "starts_with [] (c # cs) = False"
| "starts_with (x # xs) (c # cs) = (x = c \<and> starts_with xs cs)"

fun mentions :: "string \<Rightarrow> string \<Rightarrow> bool" where
  "mentions [] w = (w = [])"
| "mentions (x # xs) w = (starts_with (x # xs) w \<or> mentions xs w)"

subsection \<open>Reaction to a change of the selected context\<close>

text \<open>
  \<^verbatim>\<open>fetchVariables\<close> (lines 79-90) and the effect of lines 73-77. The page passes its
  \<^verbatim>\<open>setSelectedContext\<close> to the selector as \<^verbatim>\<open>onContextChange\<close>; setting the state to
  the value it already has re-renders nothing, and the effect runs when its dependency
  \<^verbatim>\<open>selectedContext\<close> has changed.
\<close>

definition fetchVariables ::
  "string \<Rightarrow> PromptVariable list fetched \<Rightarrow> upload \<Rightarrow> upload \<times> request list" where
  "fetchVariables base reply s =
     (case up_selectedContext s of
        None \<Rightarrow> (s, [])
      | Some ctx \<Rightarrow>
          if ctx = [] then (s, [])
          else
            (let rq = \<lparr>rq_method = ''GET'',
                       rq_url = base @ ''/get_prompt_variables?context_id='' @ ctx,
                       rq_body = NoBody\<rparr>;
                 failed = s\<lparr>up_message := ''Error loading prompt variables'',
                            up_isError := True\<rparr>
             in case reply of
                  Rejected e \<Rightarrow> (failed, [rq])
                | Resolved ok b \<Rightarrow>
                    (case b of
                       Unreadable m \<Rightarrow> (failed, [rq])
                     | Parsed variables \<Rightarrow> (s\<lparr>up_variableOptions := variables\<rparr>, [rq]))))"

definition Upload_onContextChange ::
  "string \<Rightarrow> PromptVariable list fetched \<Rightarrow> string option \<Rightarrow> upload \<Rightarrow> upload \<times> request list" where
  "Upload_onContextChange base reply ctx s =
     (if ctx = up_selectedContext s then (s, [])
      else
        (let s1 = s\<lparr>up_selectedContext := ctx\<rparr>
         in if truthy ctx then fetchVariables base reply s1 else (s1, [])))"

section \<open>Context selector (the \<^verbatim>\<open>ContextSelector\<close> component in components/Layout.tsx)\<close>

text \<open>
  A context of the list is the JSON object the backend returned; \<^verbatim>\<open>c.id\<close> is its
  field \<open>id\<close>. The state has one field per \<^verbatim>\<open>useState\<close> (prefixed \<open>cs_\<close>). A handler
  returns the new state and the trace of what it did to the outside: requests sent, calls
  of the \<^verbatim>\<open>onContextChange\<close> property, and \<^verbatim>\<open>console.error\<close> lines.
\<close>

record selector =
  cs_contexts :: "jobj list"
  cs_selectedContext :: "string option"
  cs_isCreateModalVisible :: bool
  cs_newContextName :: string
  cs_newContextDescription :: string
  cs_loading :: bool

definition ContextSelector_init :: selector where
  "ContextSelector_init = \<lparr>cs_contexts = [], cs_selectedContext = None,
     cs_isCreateModalVisible = False, cs_newContextName = '''',
     cs_newContextDescription = '''', cs_loading = False\<rparr>"

datatype effect = Fetch request | OnContextChange "string option" | ConsoleError string thrown

text \<open>\<^verbatim>\<open>handleCreateContext\<close> (lines 75-95).\<close>

definition handleCreateContext ::
  "string \<Rightarrow> jobj fetched \<Rightarrow> selector \<Rightarrow> selector \<times> effect list" where
  "handleCreateContext base reply s =
     (let s1 = s\<lparr>cs_loading := True\<rparr>;
          rq = Fetch \<lparr>rq_method = ''POST'', rq_url = base @ ''/contexts'',
                      rq_body = JsonBody [(''name'', cs_newContextName s),
                                          (''description'', cs_newContextDescription s)]\<rparr>
      in case reply of
           Rejected e \<Rightarrow>
             (s1\<lparr>cs_loading := False\<rparr>, [rq, ConsoleError ''Failed to create context:'' e])
         | Resolved ok b \<Rightarrow>
             (case b of
                Unreadable m \<Rightarrow>
                  (s1\<lparr>cs_loading := False\<rparr>,
                   [rq, ConsoleError ''Failed to create context:'' (JsError m)])
              | Parsed newContext \<Rightarrow>
                  (s1\<lparr>cs_contexts := cs_contexts s @ [newContext],
                      cs_isCreateModalVisible := False,
                      cs_newContextName := '''',
                      cs_newContextDescription := '''',
                      cs_loading := False\<rparr>, [rq])))"

text \<open>
  \<^verbatim>\<open>handleDeleteContext\<close> (lines 97-120). \<open>confirmed\<close> is the user's answer to
  \<^verbatim>\<open>window.confirm\<close>; \<open>caught\<close> is the \<^verbatim>\<open>catch\<close> block. The body of the reply is
  read only when the response is not \<^verbatim>\<open>ok\<close>.
\<close>

definition handleDeleteContext ::
  "string \<Rightarrow> bool \<Rightarrow> jobj fetched \<Rightarrow> selector \<Rightarrow> selector \<times> effect list" where
  "handleDeleteContext base confirmed reply s =
     (case cs_selectedContext s of
        None \<Rightarrow> (s, [])
      | Some sel \<Rightarrow>
          if sel = [] then (s, [])
          else if \<not> confirmed then (s, [])
          else
            (let rq = Fetch \<lparr>rq_method = ''DELETE'', rq_url = base @ ''/contexts/'' @ sel,
                             rq_body = NoBody\<rparr>;
                 caught = (\<lambda>e. (s, [rq, ConsoleError ''Failed to delete context:'' e]))
             in case reply of
                  Rejected e \<Rightarrow> caught e
                | Resolved ok b \<Rightarrow>
                    if ok then
                      (s\<lparr>cs_contexts := filter (\<lambda>c. field c ''id'' \<noteq> Some sel) (cs_contexts s),
                         cs_selectedContext := None\<rparr>,
                       [rq, OnContextChange None])
                    else
                      (case b of
                         Unreadable m \<Rightarrow> caught (JsError m)
                       | Parsed errorData \<Rightarrow>
                           caught (JsError (js_or (field errorData ''detail'')
                                                  ''Failed to delete context'')))))"

text \<open>
  Every string the component can put on the screen (lines 122-210): the labels and
  placeholders, the label of the selected option, the label and description of every
  option, and the values of the two inputs of the modal (listed whether or not the modal
  is open). The delete button is rendered only while a context is selected.
\<close>

definition shown :: "string option \<Rightarrow> string list" where
  "shown v = (case v of None \<Rightarrow> [] | Some t \<Rightarrow> [t])"

definition ContextSelector_render :: "selector \<Rightarrow> string list" where
  "ContextSelector_render s =
     [''Select Context'', ''Choose a context'', ''Create New Context'']
     @ (case cs_selectedContext s of
          None \<Rightarrow> []
        | Some sel \<Rightarrow>
            if sel = [] then []
            else [js_or (case find (\<lambda>c. field c ''id'' = Some sel) (cs_contexts s) of
                           None \<Rightarrow> None | Some c \<Rightarrow> field c ''name'') '''',
                  ''Delete Context''])
     @ concat (map (\<lambda>c. shown (field c ''name'') @ shown (field c ''description''))
                   (cs_contexts s))
     @ [''Create New Context'', ''Name'', cs_newContextName s,
        ''Description'', cs_newContextDescription s, ''Cancel'', ''Create'']"

text \<open>
  The hosting page receives the \<^verbatim>\<open>onContextChange\<close> calls of a trace, in order, through
  its own handler.
\<close>

definition deliver :: "(string option \<Rightarrow> 'h \<Rightarrow> 'h) \<Rightarrow> effect list \<Rightarrow> 'h \<Rightarrow> 'h" where
  "deliver on_change evs h =
     foldl (\<lambda>h ev. case ev of OnContextChange v \<Rightarrow> on_change v h
                             | Fetch rq \<Rightarrow> h
                             | ConsoleError label e \<Rightarrow> h) h evs"

section \<open>Chat page (the \<^verbatim>\<open>Chat\<close> component in components/Navigation.tsx)\<close>

record QueryResponse =
  naive :: string
  local :: string
  global' :: string
  hybrid :: string

text \<open>
  \<^verbatim>\<open>keyof QueryResponse\<close>, and \<open>lookup r k\<close> for \<^verbatim>\<open>responses[tab.id]\<close>. The source's
  field \<^verbatim>\<open>global_\<close> is written \<open>global'\<close>: a name cannot end with an underscore here.
\<close>

datatype tab_id = Naive | Local | Global' | Hybrid

fun lookup :: "QueryResponse \<Rightarrow> tab_id \<Rightarrow> string" where
  "lookup r Naive = naive r"
| "lookup r Local = local r"
| "lookup r Global' = global' r"
| "lookup r Hybrid = hybrid r"

text \<open>The body of the reply to \<^verbatim>\<open>POST /query\<close>, as \<^verbatim>\<open>handleSubmit\<close> reads it.\<close>

record query_reply =
  qr_status :: "string option"
  qr_message :: "string option"
  qr_data :: "QueryResponse option"

record chat =
  ch_query :: string
  ch_responses :: "QueryResponse option"
  ch_loading :: bool
  ch_error :: "string option"
  ch_selectedTab :: tab_id
  ch_selectedContext :: "string option"

definition Chat_init :: chat where
  "Chat_init = \<lparr>ch_query = '''', ch_responses = None, ch_loading = False, ch_error = None,
     ch_selectedTab = Hybrid, ch_selectedContext = None\<rparr>"

text \<open>
  \<^verbatim>\<open>handleSubmit\<close> (lines 376-398); \<open>caught\<close> is the \<^verbatim>\<open>catch\<close> block.
\<close>

definition handleSubmit ::
  "string \<Rightarrow> query_reply fetched \<Rightarrow> chat \<Rightarrow> chat \<times> effect list" where
  "handleSubmit base reply s =
     (case ch_selectedContext s of
        None \<Rightarrow> (s, [])
      | Some ctx \<Rightarrow>
          if trim (ch_query s) = [] then (s, [])
          else if ctx = [] then (s, [])
          else
            (let s1 = s\<lparr>ch_loading := True, ch_error := None\<rparr>;
                 rq = Fetch \<lparr>rq_method = ''POST'', rq_url = base @ ''/query?context_id='' @ ctx,
                             rq_body = JsonBody [(''query'', ch_query s)]\<rparr>;
                 caught = (\<lambda>e.
                   (s1\<lparr>ch_error := Some (message_of e
                                   ''An error occurred while processing your request''),
                       ch_responses := None, ch_loading := False\<rparr>,
                    [rq, ConsoleError ''Error querying:'' e]))
             in case reply of
                  Rejected e \<Rightarrow> caught e
                | Resolved ok b \<Rightarrow>
                    (case b of
                       Unreadable m \<Rightarrow> caught (JsError m)
                     | Parsed d \<Rightarrow>
                         if qr_status d = Some ''success'' then
                           (s1\<lparr>ch_responses := qr_data d, ch_loading := False\<rparr>, [rq])
                         else
                           caught (JsError (js_or (qr_message d) ''Failed to get response'')))))"

text \<open>
  The page's \<^verbatim>\<open>setSelectedContext\<close>, handed to the selector; no effect of the component
  depends on it. \<open>Chat_visible\<close> is the content of the active result tab (lines 462-498):
  nothing while \<^verbatim>\<open>responses\<close> is null.
\<close>

definition Chat_onContextChange :: "string option \<Rightarrow> chat \<Rightarrow> chat" where
  "Chat_onContextChange ctx s = s\<lparr>ch_selectedContext := ctx\<rparr>"

definition Chat_visible :: "chat \<Rightarrow> string option" where
  "Chat_visible s = (case ch_responses s of None \<Rightarrow> None
                     | Some r \<Rightarrow> Some (lookup r (ch_selectedTab s)))"

section \<open>Visualize page (pages/Visualize.tsx)\<close>

text \<open>
  The component's state (prefixed \<open>vz_\<close>) together with what its object URLs live in.
  An object URL is identified by a number: \<^verbatim>\<open>URL.createObjectURL\<close> mints the next one
  and registers it, \<^verbatim>\<open>URL.revokeObjectURL\<close> releases it; \<open>vz_live\<close> holds the identifiers
  minted and not released. \<open>vz_cleanupUrl\<close> is the \<^verbatim>\<open>graphUrl\<close> that the pending cleanup
  function of the effect (lines 55-59) closed over: the value \<^verbatim>\<open>graphUrl\<close> had in the
  render in which the effect last ran, that is, when \<^verbatim>\<open>selectedContext\<close> last changed.
\<close>

record visualize =
  vz_loading :: bool
  vz_error :: "string option"
  vz_graphUrl :: "nat option"
  vz_selectedContext :: "string option"
  vz_regenerating :: bool
  vz_cleanupUrl :: "nat option"
  vz_live :: "nat set"
  vz_minted :: nat

definition createObjectURL :: "visualize \<Rightarrow> nat \<times> visualize" where
  "createObjectURL s =
     (vz_minted s, s\<lparr>vz_live := insert (vz_minted s) (vz_live s), vz_minted := Suc (vz_minted s)\<rparr>)"

definition revokeObjectURL :: "nat \<Rightarrow> visualize \<Rightarrow> visualize" where
  "revokeObjectURL u s = s\<lparr>vz_live := vz_live s - {u}\<rparr>"

text \<open>
  The state after mounting: the initial values, and the effect has run once with no
  context selected (\<^verbatim>\<open>setGraphUrl(null)\<close>), its cleanup holding \<^verbatim>\<open>null\<close>.
\<close>

definition Visualize_init :: visualize where
  "Visualize_init = \<lparr>vz_loading = False, vz_error = None, vz_graphUrl = None,
     vz_selectedContext = None, vz_regenerating = False, vz_cleanupUrl = None,
     vz_live = {}, vz_minted = 0\<rparr>"

text \<open>\<^verbatim>\<open>loadGraph\<close> (lines 22-42); the reply's body is the blob.\<close>

definition loadGraph ::
  "string \<Rightarrow> bool \<Rightarrow> string fetched \<Rightarrow> visualize \<Rightarrow> visualize \<times> request list" where
  "loadGraph base forceRegenerate reply s =
     (case vz_selectedContext s of
        None \<Rightarrow> (s, [])
      | Some ctx \<Rightarrow>
          if ctx = [] then (s, [])
          else
            (let s1 = s\<lparr>vz_loading := True, vz_error := None\<rparr>;
                 rq = \<lparr>rq_method = ''GET'',
                       rq_url = base @ ''/visualize?context_id='' @ ctx @ ''&regenerate='' @
                                (if forceRegenerate then ''true'' else ''false''),
                       rq_body = NoBody\<rparr>;
                 s2 = (case reply of
                         Rejected e \<Rightarrow> s1\<lparr>vz_error := Some (message_of e ''An error occurred'')\<rparr>
                       | Resolved ok b \<Rightarrow>
                           if ok then
                             (case b of
                                Unreadable m \<Rightarrow> s1\<lparr>vz_error := Some m\<rparr>
                              | Parsed blob \<Rightarrow>
                                  (case createObjectURL s1 of
                                     (url, s') \<Rightarrow> s'\<lparr>vz_graphUrl := Some url\<rparr>))
                           else s1\<lparr>vz_error := Some ''Failed to generate graph visualization''\<rparr>)
             in (s2\<lparr>vz_loading := False, vz_regenerating := False\<rparr>, [rq])))"

text \<open>\<^verbatim>\<open>handleRegenerate\<close> (lines 44-47).\<close>

definition handleRegenerate ::
  "string \<Rightarrow> string fetched \<Rightarrow> visualize \<Rightarrow> visualize \<times> request list" where
  "handleRegenerate base reply s = loadGraph base True reply (s\<lparr>vz_regenerating := True\<rparr>)"

text \<open>
  The page's \<^verbatim>\<open>setSelectedContext\<close>, handed to the selector, with the effect of lines
  49-60 that depends on it. When the value changes, the cleanup of the previous run of
  the effect is called (it releases the URL it closed over, if any), the effect runs again
  and its new cleanup closes over the \<^verbatim>\<open>graphUrl\<close> of this render; the effect loads the
  graph of a selected context and clears \<^verbatim>\<open>graphUrl\<close> otherwise. Unmounting calls the
  pending cleanup.
\<close>

definition cleanup :: "visualize \<Rightarrow> visualize" where
  "cleanup s = (case vz_cleanupUrl s of None \<Rightarrow> s | Some u \<Rightarrow> revokeObjectURL u s)"

definition Visualize_onContextChange ::
  "string \<Rightarrow> string fetched \<Rightarrow> string option \<Rightarrow> visualize \<Rightarrow> visualize \<times> request list" where
  "Visualize_onContextChange base reply ctx s =
     (if ctx = vz_selectedContext s then (s, [])
      else
        (let s1 = cleanup (s\<lparr>vz_selectedContext := ctx\<rparr>);
             s2 = s1\<lparr>vz_cleanupUrl := vz_graphUrl s1\<rparr>
         in if truthy ctx then loadGraph base False reply s2
            else (s2\<lparr>vz_graphUrl := None\<rparr>, [])))"

definition Visualize_unmount :: "visualize \<Rightarrow> visualize" where
  "Visualize_unmount s = cleanup s"

section \<open>Concrete runs\<close>

text \<open>
  States and backends used to evaluate the handlers: a selector that lists and has
  selected the context \<open>c1\<close>, a chat page before and after a successful query, a
  batch of three files whose second upload the backend refuses, an upload page with loaded
  variables, and a Visualize page after loading and after regenerating the graph.
\<close>

definition ex_context :: jobj where
  "ex_context = [(''id'', ''c1''), (''name'', ''Manuals''), (''created_at'', ''2024-11-02'')]"

definition ex_selector :: selector where
  "ex_selector = ContextSelector_init\<lparr>cs_contexts := [ex_context],
     cs_selectedContext := Some ''c1'', cs_newContextName := ''Manuals''\<rparr>"

definition ex_result :: QueryResponse where
  "ex_result = \<lparr>naive = ''A'', local = ''B'', global' = ''C'', hybrid = ''D''\<rparr>"

definition ex_chat :: chat where
  "ex_chat = Chat_init\<lparr>ch_query := ''what is a context?'', ch_selectedContext := Some ''c1''\<rparr>"

definition ex_chat_answered :: chat where
  "ex_chat_answered =
     fst (handleSubmit ''/api''
            (Resolved True (Parsed \<lparr>qr_status = Some ''success'', qr_message = None,
                                     qr_data = Some ex_result\<rparr>)) ex_chat)"

definition ex_tags :: upload where
  "ex_tags = Upload_init\<lparr>up_tags := [''alpha'', ''beta'']\<rparr>"

definition ex_files :: "upfile list" where
  "ex_files = [\<lparr>name = ''a.txt'', content = ''alpha''\<rparr>,
               \<lparr>name = ''b.pdf'', content = ''beta''\<rparr>,
               \<lparr>name = ''c.txt'', content = ''gamma''\<rparr>]"

definition ex_upload :: upload where
  "ex_upload = Upload_init\<lparr>up_files := Some ex_files, up_selectedContext := Some ''c1''\<rparr>"

definition ex_backend :: "nat \<Rightarrow> jobj fetched" where
  "ex_backend j = (if j = 0 then Resolved True (Parsed [(''message'', ''File processed'')])
                   else Resolved False (Parsed [(''detail'', ''Unsupported file type'')]))"

text \<open>
  Further backends for the batch of three files. Each accepts the first upload; the second
  is refused with a JSON body that has no detail, refused with a body that is not JSON,
  or rejected in transport. The last backend answers the first upload with an \<open>ok\<close>
  response whose body is empty.
\<close>

definition ex_backend_no_detail :: "nat \<Rightarrow> jobj fetched" where
  "ex_backend_no_detail j =
     (if j = 0 then Resolved True (Parsed [(''message'', ''File processed'')])
      else Resolved False (Parsed [(''error'', ''Unsupported file type'')]))"

definition ex_backend_html :: "nat \<Rightarrow> jobj fetched" where
  "ex_backend_html j =
     (if j = 0 then Resolved True (Parsed [(''message'', ''File processed'')])
      else Resolved False (Unreadable ''Unexpected token < in JSON at position 0''))"

definition ex_backend_offline :: "nat \<Rightarrow> jobj fetched" where
  "ex_backend_offline j =
     (if j = 0 then Resolved True (Parsed [(''message'', ''File processed'')])
      else Rejected (JsError ''Failed to fetch''))"

definition ex_backend_empty_ok :: "nat \<Rightarrow> jobj fetched" where
  "ex_backend_empty_ok j = Resolved True (Unreadable ''Unexpected end of JSON input'')"

definition ex_upload_loaded :: upload where
  "ex_upload_loaded =
     fst (Upload_onContextChange ''/api''
            (Resolved True (Parsed [\<lparr>pv_name = ''entity_types'', pv_type = TArray,
                                      pv_currentValue = Items [''person'', ''place'']\<rparr>]))
            (Some ''c1'') Upload_init)"

definition ex_graph_loaded :: visualize where
  "ex_graph_loaded =
     fst (Visualize_onContextChange ''/api'' (Resolved True (Parsed ''graph-1'')) (Some ''c1'')
            Visualize_init)"

definition ex_graph_regenerated :: visualize where
  "ex_graph_regenerated =
     fst (handleRegenerate ''/api'' (Resolved True (Parsed ''graph-2'')) ex_graph_loaded)"

section \<open>Properties of the tag edit buffer\<close>

lemma hd_rev_dropWhile_rev:
  assumes "rev (dropWhile P (rev d)) \<noteq> []"
  shows "hd (rev (dropWhile P (rev d))) = hd d"
proof -
  have "rev (rev d) = rev (takeWhile P (rev d) @ dropWhile P (rev d))" by simp
  then have "d = rev (dropWhile P (rev d)) @ rev (takeWhile P (rev d))"
    by (simp only: rev_append rev_rev_ident)
  then have "hd d = hd (rev (dropWhile P (rev d)) @ rev (takeWhile P (rev d)))"
    by (rule arg_cong)
  with assms show ?thesis by simp
qed

lemma trim_idem: "trim (trim s) = trim s"
proof -
  define d where "d = dropWhile is_ws s"
  define t where "t = rev (dropWhile is_ws (rev d))"
  have rear: "dropWhile is_ws (rev t) = rev t"
    by (simp add: t_def)
  have front: "dropWhile is_ws t = t"
  proof (cases "t = []")
    case True
    then show ?thesis by simp
  next
    case False
    then have "dropWhile is_ws (rev d) \<noteq> []" by (simp add: t_def)
    then have "d \<noteq> []" by auto
    then have first: "\<not> is_ws (hd d)" unfolding d_def by (rule hd_dropWhile)
    have "hd t = hd d" using False unfolding t_def by (rule hd_rev_dropWhile_rev)
    with first False show ?thesis by (simp add: dropWhile_eq_self_iff)
  qed
  have "trim s = t" by (simp add: trim_def t_def d_def)
  moreover have "trim t = t" using rear front by (simp add: trim_def)
  ultimately show ?thesis by simp
qed

lemma trim_blank_iff: "trim t = [] \<longleftrightarrow> (\<forall>c\<in>set t. is_ws c)"
proof
  assume "trim t = []"
  then have "dropWhile is_ws (rev (dropWhile is_ws t)) = []" by (simp add: trim_def)
  then have "\<forall>c\<in>set (rev (dropWhile is_ws t)). is_ws c"
    by (simp only: dropWhile_eq_Nil_conv)
  then have rest: "\<forall>c\<in>set (dropWhile is_ws t). is_ws c" by simp
  have "dropWhile is_ws t = []"
  proof (rule ccontr)
    assume ne: "dropWhile is_ws t \<noteq> []"
    then have "\<not> is_ws (hd (dropWhile is_ws t))" by (rule hd_dropWhile)
    moreover have "hd (dropWhile is_ws t) \<in> set (dropWhile is_ws t)" using ne by simp
    ultimately show False using rest by blast
  qed
  then show "\<forall>c\<in>set t. is_ws c" by (simp only: dropWhile_eq_Nil_conv)
next
  assume "\<forall>c\<in>set t. is_ws c"
  then have d: "dropWhile is_ws t = []" by (simp only: dropWhile_eq_Nil_conv)
  show "trim t = []" unfolding trim_def d by simp
qed

lemma trim_strip:
  assumes "\<forall>c\<in>set pre. is_ws c" and "\<forall>c\<in>set post. is_ws c"
    and "u \<noteq> []" and "\<not> is_ws (hd u)" and "\<not> is_ws (last u)"
  shows "trim (pre @ u @ post) = u"
proof -
  have "dropWhile is_ws (u @ post) = u @ post"
    using assms(3,4) by (cases u) auto
  then have front: "dropWhile is_ws (pre @ u @ post) = u @ post"
    using assms(1) by (simp add: dropWhile_append)
  have "dropWhile is_ws (rev u) = rev u"
    using assms(3,5) by (simp add: dropWhile_eq_self_iff hd_rev)
  then have "dropWhile is_ws (rev post @ rev u) = rev u"
    using assms(2) by (simp add: dropWhile_append)
  then show ?thesis by (simp add: trim_def front)
qed

lemma trim_ends:
  assumes "trim t \<noteq> []"
  shows "\<not> is_ws (hd (trim t)) \<and> \<not> is_ws (last (trim t))"
proof -
  define d where "d = dropWhile is_ws t"
  have t: "trim t = rev (dropWhile is_ws (rev d))" by (simp add: trim_def d_def)
  have ne: "dropWhile is_ws (rev d) \<noteq> []" using assms t by simp
  then have "d \<noteq> []" by auto
  then have "\<not> is_ws (hd d)" unfolding d_def by (rule hd_dropWhile)
  moreover have "hd (trim t) = hd d"
    using assms unfolding t by (rule hd_rev_dropWhile_rev)
  moreover have "\<not> is_ws (hd (dropWhile is_ws (rev d)))" using ne by (rule hd_dropWhile)
  moreover have "last (trim t) = hd (dropWhile is_ws (rev d))"
    using ne by (simp add: t last_rev)
  ultimately show ?thesis by simp
qed

text \<open>The white space characters, written out.\<close>

lemma ws_subset:
  "set t \<subseteq> {CHR 0x09, CHR 0x0A, CHR 0x0B, CHR 0x0C, CHR 0x0D, CHR 0x20, CHR 0xA0}
     \<longleftrightarrow> (\<forall>c\<in>set t. is_ws c)"
  by (auto simp: is_ws_def)

lemma ws_member:
  "c \<in> {CHR 0x09, CHR 0x0A, CHR 0x0B, CHR 0x0C, CHR 0x0D, CHR 0x20, CHR 0xA0} \<longleftrightarrow> is_ws c"
  by (simp add: is_ws_def)

lemma filter_index_enumerate:
  "map snd (filter (\<lambda>(i, _). i \<noteq> k) (enumerate n xs)) =
     (if k < n then xs else take (k - n) xs @ drop (Suc (k - n)) xs)"
proof (induction xs arbitrary: n)
  case Nil
  show ?case by simp
next
  case (Cons x xs)
  have ih: "map snd (filter (\<lambda>(i, _). i \<noteq> k) (enumerate (Suc n) xs)) =
     (if k < Suc n then xs else take (k - Suc n) xs @ drop (Suc (k - Suc n)) xs)"
    by (rule Cons)
  consider "k < n" | "k = n" | "n < k" by linarith
  then show ?case
  proof cases
    case 1
    then show ?thesis using ih by simp
  next
    case 2
    then show ?thesis using ih by simp
  next
    case 3
    then have "k - n = Suc (k - Suc n)" by simp
    with 3 show ?thesis using ih by simp
  qed
qed

lemma tags_handleAddTag:
  "up_tags (handleAddTag t s) =
     (if trim t = [] then up_tags s
      else if trim t \<in> set (up_tags s) then up_tags s
      else up_tags s @ [trim t])"
  by (simp add: handleAddTag_def Let_def)

lemma tags_removeTag:
  "up_tags (removeTag i s) =
     (if i < length (up_tags s) then take i (up_tags s) @ drop (Suc i) (up_tags s)
      else up_tags s)"
  by (simp add: removeTag_def filter_index_enumerate)

lemma count_list_snoc:
  "count_list (xs @ [y]) x = count_list xs x + (if x = y then 1 else 0)"
  by (induction xs) auto

lemma count_list_remove_nth:
  "count_list (take i xs @ drop (Suc i) xs) x \<le> count_list xs x"
proof (induction xs arbitrary: i)
  case Nil
  show ?case by simp
next
  case (Cons a xs)
  show ?case using Cons[of "i - 1"] by (cases i) (auto simp: le_SucI)
qed

lemma apply_tag_edit_count:
  "count_list (up_tags (apply_tag_edit s e)) x \<le> max 1 (count_list (up_tags s) x)"
proof (cases e)
  case (AddTag t)
  then show ?thesis
    by (auto simp: tags_handleAddTag count_list_snoc)
next
  case (RemoveTag i)
  have "count_list (take i (up_tags s) @ drop (Suc i) (up_tags s)) x \<le> count_list (up_tags s) x"
    by (rule count_list_remove_nth)
  then have "count_list (take i (up_tags s) @ drop (Suc i) (up_tags s)) x
      \<le> max 1 (count_list (up_tags s) x)"
    by linarith
  with RemoveTag show ?thesis by (simp add: tags_removeTag del: count_list_append)
qed

lemma run_tag_edits_count:
  "count_list (up_tags (run_tag_edits es s)) x \<le> max 1 (count_list (up_tags s) x)"
proof (induction es arbitrary: s)
  case Nil
  show ?case by (simp add: run_tag_edits_def)
next
  case (Cons e es)
  have "count_list (up_tags (run_tag_edits es (apply_tag_edit s e))) x
      \<le> max 1 (count_list (up_tags (apply_tag_edit s e)) x)"
    by (rule Cons)
  also have "\<dots> \<le> max 1 (max 1 (count_list (up_tags s) x))"
    using apply_tag_edit_count[of s e x] by simp
  finally show ?case by (simp add: run_tag_edits_def)
qed

lemma apply_tag_edit_new:
  assumes "x \<in> set (up_tags (apply_tag_edit s e))"
  shows "x \<in> set (up_tags s) \<or> (x \<noteq> [] \<and> trim x = x)"
proof (cases e)
  case (AddTag t)
  with assms show ?thesis by (auto simp: tags_handleAddTag trim_idem split: if_splits)
next
  case (RemoveTag i)
  with assms show ?thesis
    by (auto simp: tags_removeTag split: if_splits dest: in_set_takeD in_set_dropD)
qed

lemma run_tag_edits_new:
  "x \<in> set (up_tags (run_tag_edits es s)) \<Longrightarrow>
     x \<in> set (up_tags s) \<or> (x \<noteq> [] \<and> trim x = x)"
proof (induction es arbitrary: s)
  case Nil
  then show ?case by (simp add: run_tag_edits_def)
next
  case (Cons e es)
  from Cons.prems have "x \<in> set (up_tags (run_tag_edits es (apply_tag_edit s e)))"
    by (simp add: run_tag_edits_def)
  then have "x \<in> set (up_tags (apply_tag_edit s e)) \<or> (x \<noteq> [] \<and> trim x = x)"
    by (rule Cons.IH)
  then show ?case using apply_tag_edit_new[of x s e] by blast
qed

lemma distinct_iff_count: "distinct xs \<longleftrightarrow> (\<forall>x. count_list xs x \<le> 1)"
proof (induction xs)
  case Nil
  show ?case by simp
next
  case (Cons a xs)
  show ?case
  proof
    assume d: "distinct (a # xs)"
    then have ih: "\<forall>x. count_list xs x \<le> 1" using Cons by simp
    from d have "count_list xs a = 0" by simp
    with ih show "\<forall>x. count_list (a # xs) x \<le> 1" by auto
  next
    assume c: "\<forall>x. count_list (a # xs) x \<le> 1"
    then have "count_list (a # xs) a \<le> 1" by blast
    then have "count_list xs a = 0" by simp
    then have fresh: "a \<notin> set xs" by (simp add: count_list_0_iff)
    have "\<forall>x. count_list xs x \<le> 1"
    proof
      fix x
      have "count_list xs x \<le> count_list (a # xs) x" by simp
      also have "\<dots> \<le> 1" using c by blast
      finally show "count_list xs x \<le> 1" .
    qed
    with Cons fresh show "distinct (a # xs)" by simp
  qed
qed

lemma run_tag_edits_distinct:
  assumes "distinct (up_tags s)"
  shows "distinct (up_tags (run_tag_edits es s))"
proof -
  have "\<forall>x. count_list (up_tags (run_tag_edits es s)) x \<le> 1"
  proof
    fix x
    have "count_list (up_tags (run_tag_edits es s)) x \<le> max 1 (count_list (up_tags s) x)"
      by (rule run_tag_edits_count)
    moreover have "count_list (up_tags s) x \<le> 1"
      using assms by (simp add: distinct_iff_count)
    ultimately show "count_list (up_tags (run_tag_edits es s)) x \<le> 1" by simp
  qed
  then show ?thesis by (simp add: distinct_iff_count)
qed

lemma apply_tag_edit_fresh:
  assumes "x \<in> set (up_tags (apply_tag_edit s e))"
  shows "x \<in> set (up_tags s) \<or> (x \<noteq> [] \<and> \<not> is_ws (hd x) \<and> \<not> is_ws (last x))"
proof (cases e)
  case (AddTag t)
  with assms show ?thesis
    using trim_ends[of t] by (auto simp: tags_handleAddTag split: if_splits)
next
  case (RemoveTag i)
  with assms show ?thesis
    by (auto simp: tags_removeTag split: if_splits dest: in_set_takeD in_set_dropD)
qed

lemma run_tag_edits_fresh:
  "x \<in> set (up_tags (run_tag_edits es s)) \<Longrightarrow>
     x \<in> set (up_tags s) \<or> (x \<noteq> [] \<and> \<not> is_ws (hd x) \<and> \<not> is_ws (last x))"
proof (induction es arbitrary: s)
  case Nil
  then show ?case by (simp add: run_tag_edits_def)
next
  case (Cons e es)
  from Cons.prems have "x \<in> set (up_tags (run_tag_edits es (apply_tag_edit s e)))"
    by (simp add: run_tag_edits_def)
  then have "x \<in> set (up_tags (apply_tag_edit s e))
      \<or> (x \<noteq> [] \<and> \<not> is_ws (hd x) \<and> \<not> is_ws (last x))"
    by (rule Cons.IH)
  then show ?case using apply_tag_edit_fresh[of x s e] by blast
qed

lemma add_blank_is_noop:
  assumes "set t \<subseteq> {CHR 0x09, CHR 0x0A, CHR 0x0B, CHR 0x0C, CHR 0x0D, CHR 0x20, CHR 0xA0}"
  shows "up_tags (handleAddTag t s) = up_tags s"
proof -
  from assms have "\<forall>c\<in>set t. is_ws c" by (simp only: ws_subset)
  then have "trim t = []" by (simp only: trim_blank_iff)
  then show ?thesis by (simp add: tags_handleAddTag)
qed

lemma add_strips_both_ends:
  assumes a: "set pre \<subseteq> {CHR 0x09, CHR 0x0A, CHR 0x0B, CHR 0x0C, CHR 0x0D, CHR 0x20, CHR 0xA0}
        \<and> set post \<subseteq> {CHR 0x09, CHR 0x0A, CHR 0x0B, CHR 0x0C, CHR 0x0D, CHR 0x20, CHR 0xA0}
        \<and> u \<noteq> []
        \<and> hd u \<notin> {CHR 0x09, CHR 0x0A, CHR 0x0B, CHR 0x0C, CHR 0x0D, CHR 0x20, CHR 0xA0}
        \<and> last u \<notin> {CHR 0x09, CHR 0x0A, CHR 0x0B, CHR 0x0C, CHR 0x0D, CHR 0x20, CHR 0xA0}"
  shows "up_tags (handleAddTag (pre @ u @ post) s) =
          (if u \<in> set (up_tags s) then up_tags s else up_tags s @ [u])"
proof -
  note b = a[unfolded ws_subset ws_member]
  have "trim (pre @ u @ post) = u"
    using b by (intro trim_strip) blast+
  moreover have "u \<noteq> []" using b by blast
  ultimately show ?thesis by (simp add: tags_handleAddTag)
qed

lemma fresh_entries_are_trimmed:
  assumes "x \<in> set (up_tags (run_tag_edits es s))"
  shows "x \<in> set (up_tags s) \<or>
           (x \<noteq> []
            \<and> hd x \<notin> {CHR 0x09, CHR 0x0A, CHR 0x0B, CHR 0x0C, CHR 0x0D, CHR 0x20, CHR 0xA0}
            \<and> last x \<notin> {CHR 0x09, CHR 0x0A, CHR 0x0B, CHR 0x0C, CHR 0x0D, CHR 0x20, CHR 0xA0})"
proof -
  from assms
  have "x \<in> set (up_tags s) \<or> (x \<noteq> [] \<and> \<not> is_ws (hd x) \<and> \<not> is_ws (last x))"
    by (rule run_tag_edits_fresh)
  then show ?thesis by (simp only: ws_member simp_thms)
qed

lemma trim_examples:
  "trim ''  beta '' = ''beta''"
  "trim ''gamma '' = ''gamma''"
  "trim ''gamma'' = ''gamma''"
  "trim ''Beta'' = ''Beta''"
  "trim ''   '' = []"
  "trim ''what is a context?'' = ''what is a context?''"
  "trim ([CHR 0xA0, CHR 0x09] @ ''beta'' @ [CHR 0x0A, CHR 0x0B, CHR 0x0C, CHR 0x0D, CHR 0x20])
     = ''beta''"
  "trim [CHR 0x09, CHR 0x0A, CHR 0x0B, CHR 0x0C, CHR 0x0D, CHR 0x20, CHR 0xA0] = []"
  by (simp_all add: trim_def is_ws_def)

text \<open>
  C7. Tag edit buffer. \<^verbatim>\<open>handleAddTag\<close> trims its input and leaves the list as it is when
  the trimmed text is empty or already in the list (exact match), and appends the trimmed
  text at the end otherwise; adding the same text twice gives the list of adding it once,
  and adding a text that is present leaves the list unchanged. The remove button deletes
  the entry at its position and changes nothing for a position past the end. Adding never
  shortens the list and removing never lengthens it. After any sequence of additions and
  removals no entry occurs more often than it did at the start (or once, if it was absent),
  every entry that was not there at the start is trimmed and not blank, and a list
  without duplicates stays without duplicates.

  With the white space written out (tab, line feed, vertical tab, form feed, carriage
  return, space, no-break space): adding a text made of white space only changes nothing;
  adding a text \<open>u\<close> wrapped in white space, where \<open>u\<close> is not empty and neither starts
  nor ends with white space, appends exactly \<open>u\<close> unless \<open>u\<close> is present; and every
  entry that was not there at the start is non-empty and neither starts nor ends with
  white space.
\<close>

theorem tag_edit_buffer_algebra:
  "up_tags (handleAddTag t s) =
      (if trim t = [] then up_tags s
       else if trim t \<in> set (up_tags s) then up_tags s
       else up_tags s @ [trim t])
   \<and> up_tags (handleAddTag t (handleAddTag t s)) = up_tags (handleAddTag t s)
   \<and> (trim t \<in> set (up_tags s) \<longrightarrow> up_tags (handleAddTag t (handleAddTag t s)) = up_tags s)
   \<and> up_tags (removeTag i s) =
      (if i < length (up_tags s) then take i (up_tags s) @ drop (Suc i) (up_tags s)
       else up_tags s)
   \<and> length (up_tags s) \<le> length (up_tags (handleAddTag t s))
   \<and> length (up_tags (removeTag i s)) \<le> length (up_tags s)
   \<and> (\<forall>x. count_list (up_tags (run_tag_edits es s)) x \<le> max 1 (count_list (up_tags s) x))
   \<and> (\<forall>x. x \<in> set (up_tags (run_tag_edits es s)) \<longrightarrow>
           x \<in> set (up_tags s) \<or> (trim x \<noteq> [] \<and> trim x = x))
   \<and> (distinct (up_tags s) \<longrightarrow> distinct (up_tags (run_tag_edits es s)))
   \<and> (set t \<subseteq> {CHR 0x09, CHR 0x0A, CHR 0x0B, CHR 0x0C, CHR 0x0D, CHR 0x20, CHR 0xA0} \<longrightarrow>
        up_tags (handleAddTag t s) = up_tags s)
   \<and> (set pre \<subseteq> {CHR 0x09, CHR 0x0A, CHR 0x0B, CHR 0x0C, CHR 0x0D, CHR 0x20, CHR 0xA0}
        \<and> set post \<subseteq> {CHR 0x09, CHR 0x0A, CHR 0x0B, CHR 0x0C, CHR 0x0D, CHR 0x20, CHR 0xA0}
        \<and> u \<noteq> []
        \<and> hd u \<notin> {CHR 0x09, CHR 0x0A, CHR 0x0B, CHR 0x0C, CHR 0x0D, CHR 0x20, CHR 0xA0}
        \<and> last u \<notin> {CHR 0x09, CHR 0x0A, CHR 0x0B, CHR 0x0C, CHR 0x0D, CHR 0x20, CHR 0xA0} \<longrightarrow>
        up_tags (handleAddTag (pre @ u @ post) s) =
          (if u \<in> set (up_tags s) then up_tags s else up_tags s @ [u]))
   \<and> (\<forall>x. x \<in> set (up_tags (run_tag_edits es s)) \<longrightarrow>
           x \<in> set (up_tags s) \<or>
           (x \<noteq> []
            \<and> hd x \<notin> {CHR 0x09, CHR 0x0A, CHR 0x0B, CHR 0x0C, CHR 0x0D, CHR 0x20, CHR 0xA0}
            \<and> last x \<notin> {CHR 0x09, CHR 0x0A, CHR 0x0B, CHR 0x0C, CHR 0x0D, CHR 0x20, CHR 0xA0}))"
proof (intro conjI)
  show "up_tags (handleAddTag t s) =
      (if trim t = [] then up_tags s
       else if trim t \<in> set (up_tags s) then up_tags s
       else up_tags s @ [trim t])"
    by (rule tags_handleAddTag)
  show "up_tags (handleAddTag t (handleAddTag t s)) = up_tags (handleAddTag t s)"
    by (simp add: tags_handleAddTag)
  show "trim t \<in> set (up_tags s) \<longrightarrow> up_tags (handleAddTag t (handleAddTag t s)) = up_tags s"
    by (simp add: tags_handleAddTag)
  show "up_tags (removeTag i s) =
      (if i < length (up_tags s) then take i (up_tags s) @ drop (Suc i) (up_tags s)
       else up_tags s)"
    by (rule tags_removeTag)
  show "length (up_tags s) \<le> length (up_tags (handleAddTag t s))"
    by (simp add: tags_handleAddTag)
  show "length (up_tags (removeTag i s)) \<le> length (up_tags s)"
    by (simp add: tags_removeTag)
  show "\<forall>x. count_list (up_tags (run_tag_edits es s)) x \<le> max 1 (count_list (up_tags s) x)"
    using run_tag_edits_count by blast
  show "\<forall>x. x \<in> set (up_tags (run_tag_edits es s)) \<longrightarrow>
           x \<in> set (up_tags s) \<or> (trim x \<noteq> [] \<and> trim x = x)"
  proof (intro allI impI)
    fix x
    assume "x \<in> set (up_tags (run_tag_edits es s))"
    then have "x \<in> set (up_tags s) \<or> (x \<noteq> [] \<and> trim x = x)"
      by (rule run_tag_edits_new)
    then show "x \<in> set (up_tags s) \<or> (trim x \<noteq> [] \<and> trim x = x)" by auto
  qed
  show "distinct (up_tags s) \<longrightarrow> distinct (up_tags (run_tag_edits es s))"
    using run_tag_edits_distinct by blast
  show "set t \<subseteq> {CHR 0x09, CHR 0x0A, CHR 0x0B, CHR 0x0C, CHR 0x0D, CHR 0x20, CHR 0xA0} \<longrightarrow>
        up_tags (handleAddTag t s) = up_tags s"
    by (rule impI) (rule add_blank_is_noop)
  show "set pre \<subseteq> {CHR 0x09, CHR 0x0A, CHR 0x0B, CHR 0x0C, CHR 0x0D, CHR 0x20, CHR 0xA0}
        \<and> set post \<subseteq> {CHR 0x09, CHR 0x0A, CHR 0x0B, CHR 0x0C, CHR 0x0D, CHR 0x20, CHR 0xA0}
        \<and> u \<noteq> []
        \<and> hd u \<notin> {CHR 0x09, CHR 0x0A, CHR 0x0B, CHR 0x0C, CHR 0x0D, CHR 0x20, CHR 0xA0}
        \<and> last u \<notin> {CHR 0x09, CHR 0x0A, CHR 0x0B, CHR 0x0C, CHR 0x0D, CHR 0x20, CHR 0xA0} \<longrightarrow>
        up_tags (handleAddTag (pre @ u @ post) s) =
          (if u \<in> set (up_tags s) then up_tags s else up_tags s @ [u])"
    by (rule impI) (rule add_strips_both_ends)
  show "\<forall>x. x \<in> set (up_tags (run_tag_edits es s)) \<longrightarrow>
           x \<in> set (up_tags s) \<or>
           (x \<noteq> []
            \<and> hd x \<notin> {CHR 0x09, CHR 0x0A, CHR 0x0B, CHR 0x0C, CHR 0x0D, CHR 0x20, CHR 0xA0}
            \<and> last x \<notin> {CHR 0x09, CHR 0x0A, CHR 0x0B, CHR 0x0C, CHR 0x0D, CHR 0x20, CHR 0xA0})"
    by (intro allI impI) (rule fresh_entries_are_trimmed)
qed

text \<open>
  The same at the buffer \<open>[alpha, beta]\<close>: adding \<open>beta\<close> with blanks around it, once or
  twice, and removing at position 7 change nothing; \<open>Beta\<close> is a different tag and is
  appended; adding \<open>gamma\<close>, a blank text, removing the first entry and adding \<open>gamma\<close>
  again leaves \<open>[beta, gamma]\<close>. A text made of the seven white space characters changes
  nothing, and \<open>beta\<close> between a no-break space, a tab and the line terminators is the
  tag \<open>beta\<close>.
\<close>

theorem tag_edit_buffer_algebra_witness:
  "up_tags (handleAddTag ''  beta '' ex_tags) = [''alpha'', ''beta'']
   \<and> up_tags (handleAddTag ''Beta'' ex_tags) = [''alpha'', ''beta'', ''Beta'']
   \<and> up_tags (handleAddTag ''  beta '' (handleAddTag ''  beta '' ex_tags)) = [''alpha'', ''beta'']
   \<and> up_tags (removeTag 7 ex_tags) = [''alpha'', ''beta'']
   \<and> up_tags (removeTag 0 ex_tags) = [''beta'']
   \<and> up_tags (run_tag_edits [AddTag ''gamma '', AddTag ''   '', RemoveTag 0, AddTag ''gamma'']
                 ex_tags) = [''beta'', ''gamma'']
   \<and> distinct (up_tags (run_tag_edits
                 [AddTag ''gamma '', AddTag ''   '', RemoveTag 0, AddTag ''gamma''] ex_tags))
   \<and> up_tags (handleAddTag [CHR 0x09, CHR 0x0A, CHR 0x0B, CHR 0x0C, CHR 0x0D, CHR 0x20, CHR 0xA0]
                 ex_tags) = [''alpha'', ''beta'']
   \<and> up_tags (handleAddTag
                 ([CHR 0xA0, CHR 0x09] @ ''beta'' @ [CHR 0x0A, CHR 0x0B, CHR 0x0C, CHR 0x0D, CHR 0x20])
                 ex_tags) = [''alpha'', ''beta'']"
  using tag_edit_buffer_algebra [where t = "''  beta ''" and s = ex_tags and i = 7
          and es = "[AddTag ''gamma '', AddTag ''   '', RemoveTag 0, AddTag ''gamma'']"
          and pre = "[CHR 0xA0, CHR 0x09]" and u = "''beta''"
          and post = "[CHR 0x0A, CHR 0x0B, CHR 0x0C, CHR 0x0D, CHR 0x20]"]
    tag_edit_buffer_algebra [where t = "[CHR 0x09, CHR 0x0A, CHR 0x0B, CHR 0x0C, CHR 0x0D, CHR 0x20, CHR 0xA0]"
          and s = ex_tags and i = 0 and es = "[]" and pre = "[]" and u = "''Beta''" and post = "[]"]
  by (simp add: ex_tags_def Upload_init_def run_tag_edits_def handleAddTag_def removeTag_def
        trim_examples Let_def enumerate_eq_zip)

section \<open>Properties of the file upload\<close>

lemma upload_loop_trace:
  assumes "upload_loop base ctx srv n i fs c p = (r, p', tr)"
    and "\<And>q. p = Some q \<Longrightarrow> total q = n \<or> total q = 0"
  shows "length tr \<le> length fs \<and>
     (\<forall>j<length tr.
        sn_request (tr ! j) =
          \<lparr>rq_method = ''POST'', rq_url = base @ ''/insert_file?context_id='' @ ctx,
            rq_body = FormFile (fs ! j)\<rparr>
        \<and> sn_in_flight (tr ! j) =
            Some \<lparr>total = n, completed = i + j, currentFile = name (fs ! j)\<rparr>
        \<and> sn_at_call (tr ! j) =
            (if j = 0 then c
             else Some \<lparr>total = n, completed = i + j - 1, currentFile = name (fs ! (j - 1))\<rparr>))"
  using assms
proof (induction fs arbitrary: i c p r p' tr)
  case Nil
  then show ?case by simp
next
  case (Cons f fs)
  define p1 where "p1 = \<lparr>total = (case p of None \<Rightarrow> n
                                     | Some q \<Rightarrow> if total q = 0 then n else total q),
                          completed = i, currentFile = name f\<rparr>"
  have tot: "total p1 = n"
    using Cons.prems(2) by (auto simp: p1_def split: option.splits)
  then have p1eq: "p1 = \<lparr>total = n, completed = i, currentFile = name f\<rparr>"
    by (simp add: p1_def)
  define rq where "rq = \<lparr>sn_request = \<lparr>rq_method = ''POST'',
      rq_url = base @ ''/insert_file?context_id='' @ ctx, rq_body = FormFile f\<rparr>,
      sn_at_call = c, sn_in_flight = Some p1\<rparr>"
  show ?case
  proof (cases "\<exists>d. srv i = Resolved True (Parsed d)")
    case True
    then obtain d where d: "srv i = Resolved True (Parsed d)" by blast
    obtain r2 p2 tr2 where
      rest: "upload_loop base ctx srv n (Suc i) fs (Some p1) (Some p1) = (r2, p2, tr2)"
      by (metis prod_cases3)
    from Cons.prems(1) d rest have tr: "tr = rq # tr2"
      by (simp add: p1_def rq_def Let_def)
    have ih: "length tr2 \<le> length fs \<and>
     (\<forall>j<length tr2.
        sn_request (tr2 ! j) =
          \<lparr>rq_method = ''POST'', rq_url = base @ ''/insert_file?context_id='' @ ctx,
            rq_body = FormFile (fs ! j)\<rparr>
        \<and> sn_in_flight (tr2 ! j) =
            Some \<lparr>total = n, completed = Suc i + j, currentFile = name (fs ! j)\<rparr>
        \<and> sn_at_call (tr2 ! j) =
            (if j = 0 then Some p1
             else Some \<lparr>total = n, completed = Suc i + j - 1, currentFile = name (fs ! (j - 1))\<rparr>))"
      using rest tot by (intro Cons.IH[of "Suc i" "Some p1" "Some p1" r2 p2 tr2]) auto
    show ?thesis
    proof (intro conjI allI impI)
      show "length tr \<le> length (f # fs)" using ih tr by simp
    next
      fix j
      assume j: "j < length tr"
      show "sn_request (tr ! j) =
          \<lparr>rq_method = ''POST'', rq_url = base @ ''/insert_file?context_id='' @ ctx,
            rq_body = FormFile ((f # fs) ! j)\<rparr>"
        using ih tr j by (cases j) (auto simp: rq_def)
      show "sn_in_flight (tr ! j) =
            Some \<lparr>total = n, completed = i + j, currentFile = name ((f # fs) ! j)\<rparr>"
        using ih tr j by (cases j) (auto simp: rq_def p1eq)
      show "sn_at_call (tr ! j) =
            (if j = 0 then c
             else Some \<lparr>total = n, completed = i + j - 1,
                         currentFile = name ((f # fs) ! (j - 1))\<rparr>)"
      proof (cases j)
        case 0
        then show ?thesis using tr by (simp add: rq_def)
      next
        case (Suc j')
        then have "j' < length tr2" using j tr by simp
        then have "sn_at_call (tr2 ! j') =
            (if j' = 0 then Some p1
             else Some \<lparr>total = n, completed = Suc i + j' - 1, currentFile = name (fs ! (j' - 1))\<rparr>)"
          using ih by blast
        then show ?thesis using Suc tr by (cases j') (auto simp: p1eq)
      qed
    qed
  next
    case False
    then have tr: "tr = [rq]"
      using Cons.prems(1)
      by (auto simp: p1_def rq_def Let_def split: fetched.splits body.splits if_splits)
    then show ?thesis by (simp add: rq_def p1eq)
  qed
qed

lemma upload_loop_abort:
  assumes "k < length fs"
    and "\<And>j. j < k \<Longrightarrow> srv (i + j) = Resolved True (Parsed (ds (i + j)))"
    and "\<And>d. srv (i + k) \<noteq> Resolved True (Parsed d)"
  shows "\<exists>p' tr. upload_loop base ctx srv n i fs c p =
           (Some (case srv (i + k) of
                    Rejected e \<Rightarrow> e
                  | Resolved ok b \<Rightarrow>
                      (case b of
                         Unreadable m \<Rightarrow> JsError m
                       | Parsed dk \<Rightarrow>
                           JsError (''Failed to upload '' @ name (fs ! k) @ '': '' @
                                    js_str (field dk ''detail'')))), p', tr)
         \<and> map (\<lambda>x. rq_body (sn_request x)) tr = map FormFile (take (Suc k) fs)"
  using assms
proof (induction fs arbitrary: i k c p)
  case Nil
  then show ?case by simp
next
  case (Cons f fs)
  show ?case
  proof (cases k)
    case 0
    with Cons.prems(3) show ?thesis
      by (auto simp add: Let_def split: fetched.splits body.splits)
  next
    case (Suc k')
    define p1 where "p1 = \<lparr>total = (case p of None \<Rightarrow> n
                                       | Some q \<Rightarrow> if total q = 0 then n else total q),
                            completed = i, currentFile = name f\<rparr>"
    have here: "srv i = Resolved True (Parsed (ds i))"
      using Cons.prems(2)[of 0] Suc by simp
    have "\<exists>p' tr. upload_loop base ctx srv n (Suc i) fs (Some p1) (Some p1) =
           (Some (case srv (Suc i + k') of
                    Rejected e \<Rightarrow> e
                  | Resolved ok b \<Rightarrow>
                      (case b of
                         Unreadable m \<Rightarrow> JsError m
                       | Parsed dk \<Rightarrow>
                           JsError (''Failed to upload '' @ name (fs ! k') @ '': '' @
                                    js_str (field dk ''detail'')))), p', tr)
         \<and> map (\<lambda>x. rq_body (sn_request x)) tr = map FormFile (take (Suc k') fs)"
    proof (rule Cons.IH)
      show "k' < length fs" using Cons.prems(1) Suc by simp
      show "\<And>j. j < k' \<Longrightarrow> srv (Suc i + j) = Resolved True (Parsed (ds (Suc i + j)))"
        using Cons.prems(2)[of "Suc j" for j] Suc by simp
      show "\<And>d. srv (Suc i + k') \<noteq> Resolved True (Parsed d)"
        using Cons.prems(3) Suc by simp
    qed
    then obtain p' tr where
      "upload_loop base ctx srv n (Suc i) fs (Some p1) (Some p1) =
           (Some (case srv (Suc i + k') of
                    Rejected e \<Rightarrow> e
                  | Resolved ok b \<Rightarrow>
                      (case b of
                         Unreadable m \<Rightarrow> JsError m
                       | Parsed dk \<Rightarrow>
                           JsError (''Failed to upload '' @ name (fs ! k') @ '': '' @
                                    js_str (field dk ''detail'')))), p', tr)"
      and "map (\<lambda>x. rq_body (sn_request x)) tr = map FormFile (take (Suc k') fs)"
      by blast
    then show ?thesis using here unfolding Suc
      by (simp add: Let_def p1_def cong: fetched.case_cong body.case_cong)
  qed
qed

lemma upload_loop_nonempty:
  assumes "upload_loop base ctx srv n i fs c p = (r, p', tr)" and "fs \<noteq> []"
  shows "tr \<noteq> []"
proof -
  obtain f fs' where "fs = f # fs'" using assms(2) by (cases fs) auto
  with assms(1) show ?thesis
    by (auto simp: Let_def split: fetched.splits body.splits if_splits prod.splits)
qed

lemma handleFileUpload_unfold:
  assumes "up_files s = Some fl" "fl \<noteq> []" "up_selectedContext s = Some ctx" "ctx \<noteq> []"
    and "upload_loop base ctx srv (length fl) 0 fl (up_uploadProgress s)
           (Some \<lparr>total = length fl, completed = 0, currentFile = name (hd fl)\<rparr>) = (r, p, tr)"
  shows "snd (handleFileUpload base srv s) = tr"
    and "up_uploadProgress (fst (handleFileUpload base srv s)) = None"
    and "up_loading (fst (handleFileUpload base srv s)) = False"
    and "up_message (fst (handleFileUpload base srv s)) =
           (case r of None \<Rightarrow> ''Successfully uploaded '' @ show_nat (length fl) @ '' files''
                    | Some e \<Rightarrow> message_of e ''Error uploading files'')"
    and "up_isError (fst (handleFileUpload base srv s)) = (r \<noteq> None)"
    and "up_files (fst (handleFileUpload base srv s)) =
           (case r of None \<Rightarrow> None | Some e \<Rightarrow> Some fl)"
  using assms by (simp_all add: handleFileUpload_def Let_def split: option.splits)

text \<open>
  C2, as amended. Abort of a file batch at the first upload that does not succeed. Let the
  page hold a list of files and a selected context, let the backend accept the first \<open>k\<close>
  uploads (an \<open>ok\<close> response with a JSON body), and let the next upload, of the file at
  position \<open>k\<close> counted from 0, not succeed in whatever way. Then \<^verbatim>\<open>handleFileUpload\<close>
  sends exactly \<open>k + 1\<close> requests, carrying the first \<open>k + 1\<close> files in input order and
  no later file, flags an error and keeps the selected files. The message shown is
  \<open>Failed to upload <name of that file>: <detail>\<close> when the response is not \<open>ok\<close> and
  has a JSON body (the word \<open>undefined\<close> for a body without detail); it is the parser's
  message when the body of the response, \<open>ok\<close> or not, is not JSON; and it is the message
  of the thrown error when the request is rejected (\<open>Error uploading files\<close> for a thrown
  value that is no error).
\<close>

theorem upload_abort_at_first_failure:
  assumes "up_files s = Some fl" and "up_selectedContext s = Some ctx" and "ctx \<noteq> []"
    and "k < length fl"
    and "\<forall>j<k. srv j = Resolved True (Parsed (ds j))"
    and "\<forall>d. srv k \<noteq> Resolved True (Parsed d)"
  shows "map (\<lambda>x. rq_body (sn_request x)) (snd (handleFileUpload base srv s)) =
           map FormFile (take (Suc k) fl)
       \<and> length (snd (handleFileUpload base srv s)) = Suc k
       \<and> up_message (fst (handleFileUpload base srv s)) =
           (case srv k of
              Rejected e \<Rightarrow> (case e of JsError m \<Rightarrow> m | NotAnError \<Rightarrow> ''Error uploading files'')
            | Resolved ok b \<Rightarrow>
                (case b of
                   Unreadable m \<Rightarrow> m
                 | Parsed dk \<Rightarrow>
                     ''Failed to upload '' @ name (fl ! k) @ '': '' @
                     (case field dk ''detail'' of None \<Rightarrow> ''undefined'' | Some t \<Rightarrow> t)))
       \<and> up_isError (fst (handleFileUpload base srv s))
       \<and> up_files (fst (handleFileUpload base srv s)) = Some fl"
proof -
  have ne: "fl \<noteq> []" using assms(4) by auto
  define e where "e = (case srv k of
                    Rejected e \<Rightarrow> e
                  | Resolved ok b \<Rightarrow>
                      (case b of
                         Unreadable m \<Rightarrow> JsError m
                       | Parsed dk \<Rightarrow>
                           JsError (''Failed to upload '' @ name (fl ! k) @ '': '' @
                                    js_str (field dk ''detail''))))"
  have "\<exists>p' tr. upload_loop base ctx srv (length fl) 0 fl (up_uploadProgress s)
           (Some \<lparr>total = length fl, completed = 0, currentFile = name (hd fl)\<rparr>) =
           (Some (case srv (0 + k) of
                    Rejected e \<Rightarrow> e
                  | Resolved ok b \<Rightarrow>
                      (case b of
                         Unreadable m \<Rightarrow> JsError m
                       | Parsed dk \<Rightarrow>
                           JsError (''Failed to upload '' @ name (fl ! k) @ '': '' @
                                    js_str (field dk ''detail'')))), p', tr)
         \<and> map (\<lambda>x. rq_body (sn_request x)) tr = map FormFile (take (Suc k) fl)"
    using assms(4,5,6) by (intro upload_loop_abort[where ds = ds]) auto
  then obtain p' tr where
    run: "upload_loop base ctx srv (length fl) 0 fl (up_uploadProgress s)
           (Some \<lparr>total = length fl, completed = 0, currentFile = name (hd fl)\<rparr>) =
           (Some e, p', tr)"
    and tr: "map (\<lambda>x. rq_body (sn_request x)) tr = map FormFile (take (Suc k) fl)"
    by (auto simp: e_def)
  note u = handleFileUpload_unfold[OF assms(1) ne assms(2,3) run]
  have "length (map (\<lambda>x. rq_body (sn_request x)) tr) = length (map FormFile (take (Suc k) fl))"
    using tr by simp
  then have len: "length tr = Suc k" using assms(4) by simp
  have msg: "message_of e ''Error uploading files'' =
           (case srv k of
              Rejected e \<Rightarrow> (case e of JsError m \<Rightarrow> m | NotAnError \<Rightarrow> ''Error uploading files'')
            | Resolved ok b \<Rightarrow>
                (case b of
                   Unreadable m \<Rightarrow> m
                 | Parsed dk \<Rightarrow>
                     ''Failed to upload '' @ name (fl ! k) @ '': '' @
                     (case field dk ''detail'' of None \<Rightarrow> ''undefined'' | Some t \<Rightarrow> t)))"
    by (simp add: e_def message_of_def js_str_def split: fetched.splits body.splits thrown.splits)
  show ?thesis using tr len msg by (simp add: u)
qed

text \<open>
  The same for three files of which the backend accepts the first and refuses the second
  with the detail \<open>Unsupported file type\<close>, with a JSON body without detail, with a body
  that is not JSON, or by a transport failure: two requests, for \<open>a.txt\<close> and \<open>b.pdf\<close>,
  and the four messages. A backend whose \<open>ok\<close> response to the first upload has an empty
  body stops the batch after one request.
\<close>

theorem upload_abort_at_first_failure_witness:
  "map (\<lambda>x. rq_body (sn_request x)) (snd (handleFileUpload ''/api'' ex_backend ex_upload)) =
      [FormFile \<lparr>name = ''a.txt'', content = ''alpha''\<rparr>,
       FormFile \<lparr>name = ''b.pdf'', content = ''beta''\<rparr>]
   \<and> up_message (fst (handleFileUpload ''/api'' ex_backend ex_upload)) =
      ''Failed to upload b.pdf: Unsupported file type''
   \<and> up_isError (fst (handleFileUpload ''/api'' ex_backend ex_upload))
   \<and> up_message (fst (handleFileUpload ''/api'' ex_backend_no_detail ex_upload)) =
      ''Failed to upload b.pdf: undefined''
   \<and> up_message (fst (handleFileUpload ''/api'' ex_backend_html ex_upload)) =
      ''Unexpected token < in JSON at position 0''
   \<and> up_message (fst (handleFileUpload ''/api'' ex_backend_offline ex_upload)) =
      ''Failed to fetch''
   \<and> length (snd (handleFileUpload ''/api'' ex_backend_offline ex_upload)) = 2
   \<and> up_message (fst (handleFileUpload ''/api'' ex_backend_empty_ok ex_upload)) =
      ''Unexpected end of JSON input''
   \<and> map (\<lambda>x. rq_body (sn_request x))
        (snd (handleFileUpload ''/api'' ex_backend_empty_ok ex_upload)) =
      [FormFile \<lparr>name = ''a.txt'', content = ''alpha''\<rparr>]"
  using upload_abort_at_first_failure [where s = ex_upload and fl = ex_files and ctx = "''c1''"
          and k = 1 and srv = ex_backend and ds = "\<lambda>j. [(''message'', ''File processed'')]"
          and base = "''/api''"]
    upload_abort_at_first_failure [where s = ex_upload and fl = ex_files and ctx = "''c1''"
          and k = 1 and srv = ex_backend_no_detail
          and ds = "\<lambda>j. [(''message'', ''File processed'')]" and base = "''/api''"]
    upload_abort_at_first_failure [where s = ex_upload and fl = ex_files and ctx = "''c1''"
          and k = 1 and srv = ex_backend_html
          and ds = "\<lambda>j. [(''message'', ''File processed'')]" and base = "''/api''"]
    upload_abort_at_first_failure [where s = ex_upload and fl = ex_files and ctx = "''c1''"
          and k = 1 and srv = ex_backend_offline
          and ds = "\<lambda>j. [(''message'', ''File processed'')]" and base = "''/api''"]
    upload_abort_at_first_failure [where s = ex_upload and fl = ex_files and ctx = "''c1''"
          and k = 0 and srv = ex_backend_empty_ok
          and ds = "\<lambda>j. [(''message'', ''File processed'')]" and base = "''/api''"]
  by (simp add: ex_upload_def ex_files_def ex_backend_def ex_backend_no_detail_def
        ex_backend_html_def ex_backend_offline_def ex_backend_empty_ok_def Upload_init_def
        field_def)

text \<open>
  C2 as stated fails: the backend's second response is a non-success response (its body
  is not JSON), it is the first such response of the batch, and the message shown is the
  parser's text, in which the name of the second file does not occur.
\<close>

theorem upload_error_names_no_file:
  "ex_backend_html 0 = Resolved True (Parsed [(''message'', ''File processed'')])
   \<and> ex_backend_html 1 = Resolved False (Unreadable ''Unexpected token < in JSON at position 0'')
   \<and> up_message (fst (handleFileUpload ''/api'' ex_backend_html ex_upload)) =
      ''Unexpected token < in JSON at position 0''
   \<and> \<not> mentions (up_message (fst (handleFileUpload ''/api'' ex_backend_html ex_upload))) ''b.pdf''"
  by (simp add: handleFileUpload_def ex_upload_def ex_files_def ex_backend_html_def
        Upload_init_def Let_def message_of_def)

text \<open>
  C3, as amended. Progress of a file batch. Whenever \<^verbatim>\<open>handleFileUpload\<close> starts a batch
  (files chosen, a context selected), whatever the backend answers: the request number
  \<open>j\<close> (from 0, that is item \<open>j + 1\<close>) carries the file at position \<open>j\<close>; the progress
  state queued before it is sent and in force while it is in flight holds the number of
  files as total, \<open>j\<close> as the completed count and that file's name as the current file;
  at the moment the request is sent the component's progress state is still the one of
  the item before (for the first request, the state the handler was called in). At least
  one request is sent and never more than there are files; and when the handler ends, by
  success or by any failure, the progress state is cleared and the loading flag is off.
\<close>

theorem upload_progress_states:
  assumes "up_files s = Some fl" and "fl \<noteq> []"
    and "up_selectedContext s = Some ctx" and "ctx \<noteq> []"
  shows "up_uploadProgress (fst (handleFileUpload base srv s)) = None
       \<and> up_loading (fst (handleFileUpload base srv s)) = False
       \<and> snd (handleFileUpload base srv s) \<noteq> []
       \<and> length (snd (handleFileUpload base srv s)) \<le> length fl
       \<and> (\<forall>j<length (snd (handleFileUpload base srv s)).
            sn_request (snd (handleFileUpload base srv s) ! j) =
              \<lparr>rq_method = ''POST'', rq_url = base @ ''/insert_file?context_id='' @ ctx,
                rq_body = FormFile (fl ! j)\<rparr>
            \<and> sn_in_flight (snd (handleFileUpload base srv s) ! j) =
                Some \<lparr>total = length fl, completed = j, currentFile = name (fl ! j)\<rparr>
            \<and> sn_at_call (snd (handleFileUpload base srv s) ! j) =
                (if j = 0 then up_uploadProgress s
                 else Some \<lparr>total = length fl, completed = j - 1,
                             currentFile = name (fl ! (j - 1))\<rparr>))"
proof -
  obtain r p tr where
    run: "upload_loop base ctx srv (length fl) 0 fl (up_uploadProgress s)
           (Some \<lparr>total = length fl, completed = 0, currentFile = name (hd fl)\<rparr>) = (r, p, tr)"
    by (metis prod_cases3)
  note u = handleFileUpload_unfold[OF assms run]
  have t: "length tr \<le> length fl \<and>
     (\<forall>j<length tr.
        sn_request (tr ! j) =
          \<lparr>rq_method = ''POST'', rq_url = base @ ''/insert_file?context_id='' @ ctx,
            rq_body = FormFile (fl ! j)\<rparr>
        \<and> sn_in_flight (tr ! j) =
            Some \<lparr>total = length fl, completed = 0 + j, currentFile = name (fl ! j)\<rparr>
        \<and> sn_at_call (tr ! j) =
            (if j = 0 then up_uploadProgress s
             else Some \<lparr>total = length fl, completed = 0 + j - 1, currentFile = name (fl ! (j - 1))\<rparr>))"
    using run by (rule upload_loop_trace) simp
  have ne: "tr \<noteq> []" using run assms(2) by (rule upload_loop_nonempty)
  show ?thesis using t ne by (simp add: u(1) u(2) u(3))
qed

text \<open>
  The same for the three files: the second request is in flight with progress
  \<open>(total 3, completed 1, b.pdf)\<close> and was sent while the state was
  \<open>(total 3, completed 0, a.txt)\<close>; the progress state is cleared after the abort.
\<close>

theorem upload_progress_states_witness:
  "up_uploadProgress (fst (handleFileUpload ''/api'' ex_backend ex_upload)) = None
   \<and> sn_in_flight (snd (handleFileUpload ''/api'' ex_backend ex_upload) ! 1) =
       Some \<lparr>total = 3, completed = 1, currentFile = ''b.pdf''\<rparr>
   \<and> sn_at_call (snd (handleFileUpload ''/api'' ex_backend ex_upload) ! 1) =
       Some \<lparr>total = 3, completed = 0, currentFile = ''a.txt''\<rparr>
   \<and> length (snd (handleFileUpload ''/api'' ex_backend ex_upload)) = 2"
proof -
  have len: "length (snd (handleFileUpload ''/api'' ex_backend ex_upload)) = 2"
    by (simp add: handleFileUpload_def ex_upload_def ex_files_def ex_backend_def
          Upload_init_def Let_def)
  show ?thesis
    using upload_progress_states [of ex_upload ex_files "''c1''" "''/api''" ex_backend] len
    by (simp add: ex_upload_def ex_files_def Upload_init_def)
qed

text \<open>
  C3 as stated fails: at the moment the first request of the batch is sent the progress
  state is still null, not \<open>(completed 0, a.txt)\<close>, and at the moment the second request
  is sent it is \<open>(completed 0, a.txt)\<close>, not \<open>(completed 1, b.pdf)\<close>.
\<close>

theorem progress_not_applied_at_fetch:
  "sn_at_call (snd (handleFileUpload ''/api'' ex_backend ex_upload) ! 0) = None
   \<and> sn_at_call (snd (handleFileUpload ''/api'' ex_backend ex_upload) ! 0) \<noteq>
       Some \<lparr>total = 3, completed = 0, currentFile = ''a.txt''\<rparr>
   \<and> sn_at_call (snd (handleFileUpload ''/api'' ex_backend ex_upload) ! 1) \<noteq>
       Some \<lparr>total = 3, completed = 1, currentFile = ''b.pdf''\<rparr>"
  by (simp add: handleFileUpload_def ex_upload_def ex_files_def ex_backend_def
        Upload_init_def Let_def)

section \<open>Properties of the context selector\<close>

text \<open>
  C8. A create request that the backend refuses. \<^verbatim>\<open>handleCreateContext\<close> never looks at
  \<^verbatim>\<open>response.ok\<close>: with the selector listing \<open>c1\<close> and the backend answering the
  request with a response that is not \<open>ok\<close> and carries the body
  \<open>{detail: Context name already exists}\<close>, that body is appended to the list of
  contexts as if it were the new context, and nothing is written to the console.
\<close>

theorem create_appends_error_body:
  "cs_contexts (fst (handleCreateContext ''/api''
       (Resolved False (Parsed [(''detail'', ''Context name already exists'')])) ex_selector))
     = [ex_context, [(''detail'', ''Context name already exists'')]]
   \<and> snd (handleCreateContext ''/api''
       (Resolved False (Parsed [(''detail'', ''Context name already exists'')])) ex_selector)
     = [Fetch \<lparr>rq_method = ''POST'', rq_url = ''/api/contexts'',
          rq_body = JsonBody [(''name'', ''Manuals''), (''description'', '''')]\<rparr>]"
  by (simp add: handleCreateContext_def ex_selector_def ContextSelector_init_def Let_def)

text \<open>
  C9, as amended. A delete request that fails. With a context selected and the deletion
  confirmed, when the request is rejected, or the response is not \<open>ok\<close> (with a JSON
  body or with an unreadable one), \<^verbatim>\<open>handleDeleteContext\<close> leaves the whole state of the
  selector as it was, the list and the selection included, so that nothing it renders
  changes; it calls \<^verbatim>\<open>onContextChange\<close> not at all, and writes the error to the console
  only: the thrown value of a rejected request; for a response with a JSON body the
  backend's detail, or \<open>Failed to delete context\<close> when the detail is absent or empty;
  for a response with an unreadable body the parser's message.
\<close>

theorem delete_failure_leaves_state:
  assumes "cs_selectedContext s = Some sel" and "sel \<noteq> []"
  shows "handleDeleteContext base True (Rejected e) s =
           (s, [Fetch \<lparr>rq_method = ''DELETE'', rq_url = base @ ''/contexts/'' @ sel,
                       rq_body = NoBody\<rparr>,
                ConsoleError ''Failed to delete context:'' e])
       \<and> handleDeleteContext base True (Resolved False (Parsed d)) s =
           (s, [Fetch \<lparr>rq_method = ''DELETE'', rq_url = base @ ''/contexts/'' @ sel,
                       rq_body = NoBody\<rparr>,
                ConsoleError ''Failed to delete context:''
                  (JsError (case field d ''detail'' of
                              None \<Rightarrow> ''Failed to delete context''
                            | Some t \<Rightarrow> if t = [] then ''Failed to delete context'' else t))])
       \<and> handleDeleteContext base True (Resolved False (Unreadable m)) s =
           (s, [Fetch \<lparr>rq_method = ''DELETE'', rq_url = base @ ''/contexts/'' @ sel,
                       rq_body = NoBody\<rparr>,
                ConsoleError ''Failed to delete context:'' (JsError m)])
       \<and> ContextSelector_render (fst (handleDeleteContext base True (Rejected e) s)) =
           ContextSelector_render s
       \<and> ContextSelector_render (fst (handleDeleteContext base True (Resolved False (Parsed d)) s)) =
           ContextSelector_render s
       \<and> ContextSelector_render
           (fst (handleDeleteContext base True (Resolved False (Unreadable m)) s)) =
           ContextSelector_render s"
  using assms by (simp add: handleDeleteContext_def Let_def js_or_def)

text \<open>
  The same for the selector listing \<open>c1\<close>: the backend refusing with the detail
  \<open>Context is in use\<close>, with a JSON body without detail, with an empty detail, with a
  body that is not JSON, and the request failing in transport.
\<close>

theorem delete_failure_leaves_state_witness:
  "handleDeleteContext ''/api'' True
     (Resolved False (Parsed [(''detail'', ''Context is in use'')])) ex_selector =
     (ex_selector,
      [Fetch \<lparr>rq_method = ''DELETE'', rq_url = ''/api/contexts/c1'', rq_body = NoBody\<rparr>,
       ConsoleError ''Failed to delete context:'' (JsError ''Context is in use'')])
   \<and> snd (handleDeleteContext ''/api'' True
            (Resolved False (Parsed [(''error'', ''conflict'')])) ex_selector) ! 1 =
       ConsoleError ''Failed to delete context:'' (JsError ''Failed to delete context'')
   \<and> snd (handleDeleteContext ''/api'' True
            (Resolved False (Parsed [(''detail'', '''')])) ex_selector) ! 1 =
       ConsoleError ''Failed to delete context:'' (JsError ''Failed to delete context'')
   \<and> handleDeleteContext ''/api'' True
        (Resolved False (Unreadable ''Unexpected token < in JSON at position 0'')) ex_selector =
     (ex_selector,
      [Fetch \<lparr>rq_method = ''DELETE'', rq_url = ''/api/contexts/c1'', rq_body = NoBody\<rparr>,
       ConsoleError ''Failed to delete context:''
         (JsError ''Unexpected token < in JSON at position 0'')])
   \<and> handleDeleteContext ''/api'' True (Rejected (JsError ''Failed to fetch'')) ex_selector =
     (ex_selector,
      [Fetch \<lparr>rq_method = ''DELETE'', rq_url = ''/api/contexts/c1'', rq_body = NoBody\<rparr>,
       ConsoleError ''Failed to delete context:'' (JsError ''Failed to fetch'')])"
  using delete_failure_leaves_state [where s = ex_selector and sel = "''c1''" and base = "''/api''"
          and e = "JsError ''Failed to fetch''" and d = "[(''detail'', ''Context is in use'')]"
          and m = "''Unexpected token < in JSON at position 0''"]
    delete_failure_leaves_state [where s = ex_selector and sel = "''c1''" and base = "''/api''"
          and e = NotAnError and d = "[(''error'', ''conflict'')]" and m = "''x''"]
    delete_failure_leaves_state [where s = ex_selector and sel = "''c1''" and base = "''/api''"
          and e = NotAnError and d = "[(''detail'', '''')]" and m = "''x''"]
  by (simp add: ex_selector_def ContextSelector_init_def field_def)

text \<open>
  C9 as stated fails: after that refused deletion the selector is in the state it was in
  before, and the backend's message \<open>Context is in use\<close> is none of the strings the
  component renders.
\<close>

theorem delete_error_not_rendered:
  "fst (handleDeleteContext ''/api'' True
         (Resolved False (Parsed [(''detail'', ''Context is in use'')])) ex_selector) = ex_selector
   \<and> ''Context is in use'' \<notin> set (ContextSelector_render
         (fst (handleDeleteContext ''/api'' True
            (Resolved False (Parsed [(''detail'', ''Context is in use'')])) ex_selector)))"
  by (simp add: handleDeleteContext_def ex_selector_def ContextSelector_init_def Let_def
        ContextSelector_render_def ex_context_def field_def js_or_def shown_def)

text \<open>
  C10. A declined confirmation. When the user declines the confirmation,
  \<^verbatim>\<open>handleDeleteContext\<close> returns the state it was given with an empty trace: no
  request is sent, \<^verbatim>\<open>onContextChange\<close> is not called, nothing is logged; so the hosting
  page, whatever its handler, is left as it was.
\<close>

theorem declined_delete_changes_nothing:
  "handleDeleteContext base False reply s = (s, [])
   \<and> deliver on_change (snd (handleDeleteContext base False reply s)) h = h"
  by (simp add: handleDeleteContext_def deliver_def split: option.splits)

text \<open>The same for the selector listing \<open>c1\<close>, hosted by the chat page showing results.\<close>

theorem declined_delete_changes_nothing_witness:
  "handleDeleteContext ''/api'' False (Resolved True (Parsed [])) ex_selector = (ex_selector, [])
   \<and> deliver Chat_onContextChange
        (snd (handleDeleteContext ''/api'' False (Resolved True (Parsed [])) ex_selector))
        ex_chat_answered = ex_chat_answered"
  using declined_delete_changes_nothing [of "''/api''" "Resolved True (Parsed [])" ex_selector
          Chat_onContextChange ex_chat_answered]
  by (simp add: deliver_def)

section \<open>Properties of the chat page\<close>

text \<open>
  C5, as amended. A query that fails. Let a submit go out (the query is not blank and a
  context is selected). When the reply's status is not \<open>success\<close>, the error shown is
  the backend's message, or \<open>Failed to get response\<close> when the message is absent or
  empty. When the body cannot be parsed the error shown is the parser's message, and when
  the request is rejected it is the message of the thrown error; the fixed text
  \<open>An error occurred while processing your request\<close> is shown only for a thrown value
  that is no error. In each case the stored results are set to null, so no result tab
  shows anything, the loading flag is off, and nothing else of the state changes.
\<close>

theorem query_failure_clears_results:
  assumes "trim (ch_query s) \<noteq> []" and "ch_selectedContext s = Some ctx" and "ctx \<noteq> []"
  shows "(qr_status d \<noteq> Some ''success'' \<longrightarrow>
            fst (handleSubmit base (Resolved ok (Parsed d)) s) =
              s\<lparr>ch_loading := False,
                ch_error := Some (case qr_message d of
                                    None \<Rightarrow> ''Failed to get response''
                                  | Some t \<Rightarrow> if t = [] then ''Failed to get response'' else t),
                ch_responses := None\<rparr>)
       \<and> fst (handleSubmit base (Resolved ok (Unreadable m)) s) =
              s\<lparr>ch_loading := False, ch_error := Some m, ch_responses := None\<rparr>
       \<and> fst (handleSubmit base (Rejected (JsError m)) s) =
              s\<lparr>ch_loading := False, ch_error := Some m, ch_responses := None\<rparr>
       \<and> fst (handleSubmit base (Rejected NotAnError) s) =
              s\<lparr>ch_loading := False,
                ch_error := Some ''An error occurred while processing your request'',
                ch_responses := None\<rparr>
       \<and> (qr_status d \<noteq> Some ''success'' \<longrightarrow>
            Chat_visible (fst (handleSubmit base (Resolved ok (Parsed d)) s)) = None)
       \<and> Chat_visible (fst (handleSubmit base (Resolved ok (Unreadable m)) s)) = None
       \<and> Chat_visible (fst (handleSubmit base (Rejected e) s)) = None"
  using assms
  by (simp add: handleSubmit_def Let_def message_of_def js_or_def Chat_visible_def)

text \<open>
  The same for the chat page that shows the results of an earlier query: a reply with
  status \<open>error\<close> and message \<open>Index not built\<close> replaces them by that error, a reply
  with status \<open>error\<close> and no message (or an empty one) by \<open>Failed to get response\<close>, a
  body that is not JSON by the parser's message, a transport failure by the text of the
  thrown error, and a thrown value that is no error by the fixed text.
\<close>

theorem query_failure_clears_results_witness:
  "fst (handleSubmit ''/api''
         (Resolved True (Parsed \<lparr>qr_status = Some ''error'',
                                  qr_message = Some ''Index not built'', qr_data = None\<rparr>))
         ex_chat_answered) =
     ex_chat_answered\<lparr>ch_loading := False, ch_error := Some ''Index not built'',
                      ch_responses := None\<rparr>
   \<and> ch_responses ex_chat_answered = Some ex_result
   \<and> ch_error (fst (handleSubmit ''/api''
         (Resolved True (Parsed \<lparr>qr_status = Some ''error'', qr_message = None,
                                  qr_data = Some ex_result\<rparr>))
         ex_chat_answered)) = Some ''Failed to get response''
   \<and> ch_responses (fst (handleSubmit ''/api''
         (Resolved True (Parsed \<lparr>qr_status = Some ''error'', qr_message = None,
                                  qr_data = Some ex_result\<rparr>))
         ex_chat_answered)) = None
   \<and> ch_error (fst (handleSubmit ''/api''
         (Resolved False (Parsed \<lparr>qr_status = None, qr_message = Some '''',
                                   qr_data = None\<rparr>))
         ex_chat_answered)) = Some ''Failed to get response''
   \<and> ch_error (fst (handleSubmit ''/api''
         (Resolved False (Unreadable ''Unexpected token < in JSON at position 0''))
         ex_chat_answered)) = Some ''Unexpected token < in JSON at position 0''
   \<and> ch_error (fst (handleSubmit ''/api'' (Rejected (JsError ''Failed to fetch''))
         ex_chat_answered)) = Some ''Failed to fetch''
   \<and> ch_error (fst (handleSubmit ''/api'' (Rejected NotAnError) ex_chat_answered)) =
       Some ''An error occurred while processing your request''
   \<and> ch_responses (fst (handleSubmit ''/api'' (Rejected (JsError ''Failed to fetch''))
         ex_chat_answered)) = None"
proof -
  have q: "trim (ch_query ex_chat_answered) \<noteq> []"
    by (simp add: ex_chat_answered_def ex_chat_def Chat_init_def handleSubmit_def
          trim_examples Let_def)
  have c: "ch_selectedContext ex_chat_answered = Some ''c1''"
    by (simp add: ex_chat_answered_def ex_chat_def Chat_init_def handleSubmit_def
          trim_examples Let_def)
  have r: "ch_responses ex_chat_answered = Some ex_result"
    by (simp add: ex_chat_answered_def ex_chat_def Chat_init_def handleSubmit_def
          trim_examples Let_def)
  have n: "''c1'' \<noteq> []" by simp
  show ?thesis
    using query_failure_clears_results [OF q c n, where base = "''/api''" and ok = True
            and d = "\<lparr>qr_status = Some ''error'', qr_message = Some ''Index not built'',
                      qr_data = None\<rparr>"
            and m = "''Failed to fetch''" and e = "JsError ''Failed to fetch''"]
      query_failure_clears_results [OF q c n, where base = "''/api''" and ok = True
            and d = "\<lparr>qr_status = Some ''error'', qr_message = None,
                      qr_data = Some ex_result\<rparr>"
            and m = "''Unexpected token < in JSON at position 0''" and e = NotAnError]
      query_failure_clears_results [OF q c n, where base = "''/api''" and ok = False
            and d = "\<lparr>qr_status = None, qr_message = Some '''', qr_data = None\<rparr>"
            and m = "''Unexpected token < in JSON at position 0''" and e = NotAnError]
      r
    by simp
qed

text \<open>
  C5 as stated fails: when the request fails in transport with the browser's error
  \<open>Failed to fetch\<close>, the error shown is that text, which is neither a message of the
  backend nor one of the two generic texts of the handler.
\<close>

theorem transport_error_shows_thrown_text:
  "ch_error (fst (handleSubmit ''/api'' (Rejected (JsError ''Failed to fetch''))
      ex_chat_answered)) = Some ''Failed to fetch''
   \<and> ch_error (fst (handleSubmit ''/api'' (Rejected (JsError ''Failed to fetch''))
      ex_chat_answered)) \<noteq> Some ''Failed to get response''
   \<and> ch_error (fst (handleSubmit ''/api'' (Rejected (JsError ''Failed to fetch''))
      ex_chat_answered)) \<noteq> Some ''An error occurred while processing your request''"
  by (simp add: ex_chat_answered_def ex_chat_def Chat_init_def handleSubmit_def
        trim_examples Let_def message_of_def)

text \<open>
  C6. A query that succeeds. Let a submit go out from a page whose result tab is the
  initial one, and let the reply have status \<open>success\<close> and the data
  \<open>{naive: a, local: b, global_: c, hybrid: d}\<close>. Then the stored result gives back each
  of the four fields with its value, no error is shown, the selected tab is \<open>hybrid\<close>, and
  the visible tab content is \<open>d\<close>.
\<close>

theorem query_success_shows_hybrid:
  assumes "trim (ch_query s) \<noteq> []" and "ch_selectedContext s = Some ctx" and "ctx \<noteq> []"
    and "ch_selectedTab s = ch_selectedTab Chat_init"
    and "s' = fst (handleSubmit base
                 (Resolved ok (Parsed \<lparr>qr_status = Some ''success'', qr_message = msg,
                    qr_data = Some \<lparr>naive = a, local = b, global' = c, hybrid = d\<rparr>\<rparr>)) s)"
  shows "map_option naive (ch_responses s') = Some a
       \<and> map_option local (ch_responses s') = Some b
       \<and> map_option global' (ch_responses s') = Some c
       \<and> map_option hybrid (ch_responses s') = Some d
       \<and> ch_error s' = None
       \<and> ch_selectedTab s' = Hybrid
       \<and> Chat_visible s' = Some d"
  using assms by (simp add: handleSubmit_def Let_def Chat_visible_def Chat_init_def)

text \<open>The same with the values \<open>A\<close>, \<open>B\<close>, \<open>C\<close> and \<open>D\<close>: the page shows \<open>D\<close>.\<close>

theorem query_success_shows_hybrid_witness:
  "ch_responses ex_chat_answered =
     Some \<lparr>naive = ''A'', local = ''B'', global' = ''C'', hybrid = ''D''\<rparr>
   \<and> ch_selectedTab ex_chat_answered = Hybrid
   \<and> Chat_visible ex_chat_answered = Some ''D''"
  using query_success_shows_hybrid [of ex_chat "''c1''" ex_chat_answered "''/api''" True None
          "''A''" "''B''" "''C''" "''D''"]
  by (simp add: ex_chat_answered_def ex_chat_def Chat_init_def ex_result_def trim_examples
        handleSubmit_def Let_def)

section \<open>Properties of the Visualize page and of deleting the selected context\<close>

lemmas vz_defs = Visualize_onContextChange_def handleRegenerate_def loadGraph_def cleanup_def
  createObjectURL_def revokeObjectURL_def Visualize_init_def Visualize_unmount_def truthy_def
  Let_def

text \<open>
  Neither \<^verbatim>\<open>loadGraph\<close> nor \<^verbatim>\<open>handleRegenerate\<close> releases an object URL, whatever the
  reply.
\<close>

lemma loadGraph_releases_nothing:
  "vz_live s \<subseteq> vz_live (fst (loadGraph base forceRegenerate reply s))"
  by (auto simp add: loadGraph_def createObjectURL_def Let_def
        split: option.splits fetched.splits body.splits)

lemma handleRegenerate_releases_nothing:
  "vz_live s \<subseteq> vz_live (fst (handleRegenerate base reply s))"
  using loadGraph_releases_nothing [of "s\<lparr>vz_regenerating := True\<rparr>" base True reply]
  by (simp add: handleRegenerate_def)

text \<open>
  C1. Object URLs of the graph. On a freshly mounted page, select the context \<open>c1\<close> (the
  graph loads and object URL 0 is minted), then regenerate (object URL 1 is minted and
  displayed). \<^verbatim>\<open>loadGraph\<close> releases nothing, so both URLs are live at once; and the
  cleanup that runs on unmount releases the URL it closed over when the context was
  selected, which was null, so both URLs are still live after the page is discarded.
\<close>

theorem graph_urls_leak:
  "vz_live ex_graph_regenerated = {0, 1}
   \<and> vz_graphUrl ex_graph_regenerated = Some 1
   \<and> vz_live (Visualize_unmount ex_graph_regenerated) = {0, 1}"
  by (auto simp add: ex_graph_regenerated_def ex_graph_loaded_def vz_defs)

text \<open>
  C4, as amended. Confirmed deletion of the selected context, answered with an \<open>ok\<close>
  response. Every context with the selected id leaves the list and the others stay in
  order, the selection becomes null, one \<^verbatim>\<open>DELETE\<close> request is sent and the hosting page
  is notified once, with null. The chat page then only sets its selected context to null,
  and so does the upload page: query results, loaded variables, tag buffer and pending
  text and files stay as they were. The Visualize page (whose selected context was the
  deleted one) sets its selected context to null, runs the pending cleanup and clears
  the displayed graph URL.
\<close>

theorem delete_selected_context_effects:
  assumes "cs_selectedContext s = Some sel" and "sel \<noteq> []"
    and "vz_selectedContext v = Some sel"
    and "D = handleDeleteContext base True (Resolved True b) s"
  shows "cs_contexts (fst D) = filter (\<lambda>c. field c ''id'' \<noteq> Some sel) (cs_contexts s)
       \<and> Some sel \<notin> set (map (\<lambda>c. field c ''id'') (cs_contexts (fst D)))
       \<and> cs_selectedContext (fst D) = None
       \<and> snd D = [Fetch \<lparr>rq_method = ''DELETE'', rq_url = base @ ''/contexts/'' @ sel,
                         rq_body = NoBody\<rparr>,
                   OnContextChange None]
       \<and> deliver Chat_onContextChange (snd D) ch = ch\<lparr>ch_selectedContext := None\<rparr>
       \<and> deliver (\<lambda>x h. fst (Upload_onContextChange base r1 x h)) (snd D) u =
           u\<lparr>up_selectedContext := None\<rparr>
       \<and> deliver (\<lambda>x h. fst (Visualize_onContextChange base r2 x h)) (snd D) v =
           (cleanup (v\<lparr>vz_selectedContext := None\<rparr>))
             \<lparr>vz_cleanupUrl := vz_graphUrl v, vz_graphUrl := None\<rparr>
       \<and> vz_graphUrl (deliver (\<lambda>x h. fst (Visualize_onContextChange base r2 x h)) (snd D) v)
           = None"
proof -
  have D: "D = (s\<lparr>cs_contexts := filter (\<lambda>c. field c ''id'' \<noteq> Some sel) (cs_contexts s),
                  cs_selectedContext := None\<rparr>,
                [Fetch \<lparr>rq_method = ''DELETE'', rq_url = base @ ''/contexts/'' @ sel,
                        rq_body = NoBody\<rparr>,
                 OnContextChange None])"
    using assms by (simp add: handleDeleteContext_def Let_def)
  have up: "fst (Upload_onContextChange base r1 None u) = u\<lparr>up_selectedContext := None\<rparr>"
    by (cases "up_selectedContext u") (simp_all add: Upload_onContextChange_def truthy_def Let_def)
  have gu: "vz_graphUrl (cleanup (v\<lparr>vz_selectedContext := None\<rparr>)) = vz_graphUrl v"
    by (simp add: cleanup_def revokeObjectURL_def split: option.splits)
  have vz: "fst (Visualize_onContextChange base r2 None v) =
       (cleanup (v\<lparr>vz_selectedContext := None\<rparr>))
         \<lparr>vz_cleanupUrl := vz_graphUrl v, vz_graphUrl := None\<rparr>"
    using assms(3) gu by (simp add: Visualize_onContextChange_def truthy_def Let_def)
  show ?thesis
    by (auto simp add: D deliver_def Chat_onContextChange_def up vz)
qed

text \<open>
  The same for the selector listing \<open>c1\<close>, hosted by the Visualize page that displays
  the regenerated graph: the list becomes empty, the selection null and the displayed URL
  null.
\<close>

theorem delete_selected_context_effects_witness:
  "cs_contexts (fst (handleDeleteContext ''/api'' True (Resolved True (Parsed [])) ex_selector))
     = []
   \<and> cs_selectedContext
       (fst (handleDeleteContext ''/api'' True (Resolved True (Parsed [])) ex_selector)) = None
   \<and> vz_graphUrl
       (deliver (\<lambda>x h. fst (Visualize_onContextChange ''/api'' (Rejected NotAnError) x h))
          (snd (handleDeleteContext ''/api'' True (Resolved True (Parsed [])) ex_selector))
          ex_graph_regenerated) = None
   \<and> vz_graphUrl ex_graph_regenerated = Some 1"
proof -
  have sel: "vz_selectedContext ex_graph_regenerated = Some ''c1''"
    by (simp add: ex_graph_regenerated_def ex_graph_loaded_def vz_defs)
  have url: "vz_graphUrl ex_graph_regenerated = Some 1"
    by (simp add: ex_graph_regenerated_def ex_graph_loaded_def vz_defs)
  show ?thesis
    using delete_selected_context_effects [of ex_selector "''c1''" ex_graph_regenerated
            "handleDeleteContext ''/api'' True (Resolved True (Parsed [])) ex_selector"
            "''/api''" "Parsed []" ex_chat_answered "Rejected NotAnError" ex_upload
            "Rejected NotAnError"]
      sel url
    by (simp add: ex_selector_def ContextSelector_init_def ex_context_def field_def deliver_def
          handleDeleteContext_def Let_def)
qed

text \<open>
  C4 as stated fails: after the confirmed, successful deletion of \<open>c1\<close> the chat page
  still holds the results of the earlier query and still shows \<open>D\<close>, and the upload page
  still holds the variables it loaded for \<open>c1\<close>.
\<close>

theorem delete_keeps_dependent_state:
  "ch_responses (deliver Chat_onContextChange
       (snd (handleDeleteContext ''/api'' True (Resolved True (Parsed [])) ex_selector))
       ex_chat_answered) \<noteq> ch_responses Chat_init
   \<and> Chat_visible (deliver Chat_onContextChange
       (snd (handleDeleteContext ''/api'' True (Resolved True (Parsed [])) ex_selector))
       ex_chat_answered) = Some ''D''
   \<and> up_variableOptions
       (deliver (\<lambda>x h. fst (Upload_onContextChange ''/api'' (Rejected NotAnError) x h))
          (snd (handleDeleteContext ''/api'' True (Resolved True (Parsed [])) ex_selector))
          ex_upload_loaded) \<noteq> up_variableOptions Upload_init"
  by (simp add: handleDeleteContext_def ex_selector_def ContextSelector_init_def
        deliver_def Chat_onContextChange_def ex_chat_answered_def ex_chat_def Chat_init_def
        handleSubmit_def trim_examples Let_def Chat_visible_def ex_result_def
        ex_upload_loaded_def Upload_onContextChange_def fetchVariables_def Upload_init_def
        truthy_def)

end
